theory Spec2Isabelle
  imports Main "HOL-Library.Word"
begin

section \<open>The PayPerAPI contract (contracts/src/PayPerAPI.sol)\<close>

text \<open>
  Solidity's \<open>uint256\<close> and \<open>address\<close> are words of 256 and 160 bits. The contract is
  compiled with \<open>pragma solidity ^0.8.20\<close>, so \<open>+\<close>, \<open>-\<close> and \<open>/\<close> on \<open>uint256\<close> are
  checked: an overflow, an underflow or a division by zero reverts the call with a panic
  instead of wrapping around. A failed \<open>require\<close> reverts with its message. A call that
  carries currency fails before the body runs when the receiving account's holding
  would leave the \<open>uint256\<close> range (\<open>TransferFailed\<close>).
\<close>

type_synonym uint256 = "256 word"
type_synonym address = "160 word"

datatype revert = Require string | Panic nat | TransferFailed

definition checked_add :: "uint256 \<Rightarrow> uint256 \<Rightarrow> revert + uint256" where
  "checked_add a b = (if unat a + unat b < 2 ^ 256 then Inr (a + b) else Inl (Panic 17))"

definition checked_sub :: "uint256 \<Rightarrow> uint256 \<Rightarrow> revert + uint256" where
  "checked_sub a b = (if b \<le> a then Inr (a - b) else Inl (Panic 17))"

definition checked_div :: "uint256 \<Rightarrow> uint256 \<Rightarrow> revert + uint256" where
  "checked_div a b = (if b = 0 then Inl (Panic 18) else Inr (a div b))"

datatype event =
    PaymentReceived address uint256 uint256
  | FundsWithdrawn address uint256

text \<open>
  The state of one deployed contract: its two immutables, the \<open>paymentBalances\<close> mapping
  (a Solidity mapping reads 0 at every key never written), the currency the contract
  holds (\<open>address(this).balance\<close>), the events emitted so far and the transfers sent out.
\<close>

record ledger =
  pricePerRequest :: uint256
  owner :: address
  paymentBalances :: "address \<Rightarrow> uint256"
  held :: uint256
  events :: "event list"
  sent :: "(address \<times> uint256) list"

definition deployed :: "address \<Rightarrow> uint256 \<Rightarrow> ledger" where
  "deployed msg_sender p =
     \<lparr>pricePerRequest = p, owner = msg_sender, paymentBalances = (\<lambda>_. 0),
      held = 0, events = [], sent = []\<rparr>"

text \<open>The constructor, \<open>new PayPerAPI(_pricePerRequest)\<close> sent by \<open>msg_sender\<close>.\<close>

definition new_PayPerAPI :: "address \<Rightarrow> uint256 \<Rightarrow> revert + ledger" where
  "new_PayPerAPI msg_sender p =
     (if \<not> p > 0 then Inl (Require ''Price must be greater than zero'')
      else Inr (deployed msg_sender p))"

text \<open>
  \<open>pay\<close> is payable. A call of \<open>pay\<close> with \<open>msg.value = v\<close> is a call whose sender holds
  \<open>v\<close>; the chain moves \<open>v\<close> to the contract before the body runs, which fails when the
  contract's holding would overflow, and takes it back when the body reverts. The event
  reads the mapping after the update.
\<close>

definition pay :: "address \<Rightarrow> uint256 \<Rightarrow> ledger \<Rightarrow> revert + ledger" where
  "pay msg_sender msg_value s =
     (if \<not> unat (held s) + unat msg_value < 2 ^ 256 then Inl TransferFailed
      else
        let s0 = s\<lparr>held := held s + msg_value\<rparr> in
        if \<not> msg_value > 0 then Inl (Require ''Payment amount must be greater than zero'')
        else case checked_add (paymentBalances s0 msg_sender) msg_value of
               Inl e \<Rightarrow> Inl e
             | Inr b \<Rightarrow>
                 let s1 = s0\<lparr>paymentBalances := (paymentBalances s0)(msg_sender := b)\<rparr>
                 in Inr (s1\<lparr>events := events s1 @
                           [PaymentReceived msg_sender msg_value (paymentBalances s1 msg_sender)]\<rparr>))"

definition hasPaid :: "ledger \<Rightarrow> address \<Rightarrow> bool" where
  "hasPaid s payer = (paymentBalances s payer \<ge> pricePerRequest s)"

definition getPaymentBalance :: "ledger \<Rightarrow> address \<Rightarrow> uint256" where
  "getPaymentBalance s payer = paymentBalances s payer"

definition getAvailableRequests :: "ledger \<Rightarrow> address \<Rightarrow> revert + uint256" where
  "getAvailableRequests s payer = checked_div (paymentBalances s payer) (pricePerRequest s)"

definition deductPayment :: "address \<Rightarrow> address \<Rightarrow> uint256 \<Rightarrow> ledger \<Rightarrow> revert + ledger" where
  "deductPayment msg_sender payer amount s =
     (if \<not> msg_sender = owner s then Inl (Require ''Only owner can deduct payments'')
      else if \<not> paymentBalances s payer \<ge> amount then Inl (Require ''Insufficient balance'')
      else case checked_sub (paymentBalances s payer) amount of
             Inl e \<Rightarrow> Inl e
           | Inr b \<Rightarrow> Inr (s\<lparr>paymentBalances := (paymentBalances s)(payer := b)\<rparr>))"

text \<open>
  \<open>withdraw\<close> sends the whole held currency to the owner with a low-level call that
  forwards all gas, and the contract has no reentrancy lock. The call first moves the
  currency and then runs the code of the receiving account, which may call back into
  this contract before it returns; \<open>receiver\<close> is what those calls do to the contract's
  state (the identity for an account that makes none), and \<open>success\<close> is the result of
  the low-level call. When the call fails, all it did is undone with the revert.
\<close>

definition withdraw ::
  "address \<Rightarrow> (ledger \<Rightarrow> ledger) \<Rightarrow> bool \<Rightarrow> ledger \<Rightarrow> revert + ledger" where
  "withdraw msg_sender receiver success s =
     (if \<not> msg_sender = owner s then Inl (Require ''Only owner can withdraw'')
      else let balance = held s in
        if \<not> balance > 0 then Inl (Require ''No funds to withdraw'')
        else
          let s1 = receiver (s\<lparr>held := held s - balance,
                                sent := sent s @ [(owner s, balance)]\<rparr>) in
          if \<not> success then Inl (Require ''Withdrawal failed'')
          else Inr (s1\<lparr>events := events s1 @ [FundsWithdrawn (owner s) balance]\<rparr>))"

definition getContractBalance :: "ledger \<Rightarrow> uint256" where
  "getContractBalance s = held s"

text \<open>
  Calls to the contract. \<open>Withdraw sender reentered success\<close> is a \<open>withdraw\<close> during which
  the receiving account makes the calls \<open>reentered\<close> back into the contract, one after
  the other. A call that reverts leaves the state as it was before; one that succeeds
  commits the new state. \<open>run\<close> makes a list of calls in order.
\<close>

datatype call =
    Pay address uint256
  | DeductPayment address address uint256
  | Withdraw address "call list" bool

fun exec :: "call \<Rightarrow> ledger \<Rightarrow> revert + ledger"
  and run :: "ledger \<Rightarrow> call list \<Rightarrow> ledger" where
  "exec (Pay sender v) s = pay sender v s"
| "exec (DeductPayment sender payer amount) s = deductPayment sender payer amount s"
| "exec (Withdraw sender reentered success) s =
     withdraw sender (\<lambda>t. run t reentered) success s"
| "run s [] = s"
| "run s (c # cs) = run (case exec c s of Inl _ \<Rightarrow> s | Inr s' \<Rightarrow> s') cs"

declare run.simps [simp del]

definition transact :: "ledger \<Rightarrow> call \<Rightarrow> ledger" where
  "transact s c = (case exec c s of Inl _ \<Rightarrow> s | Inr s' \<Rightarrow> s')"

section \<open>Values shared by the middleware\<close>

text \<open>
  A JavaScript string is modelled by the bytes of its UTF-8 form. The code compares
  strings, joins them, tests them for emptiness and splits them at spaces, all of which
  read the same on the bytes. \<open>toUpperCase\<close> and \<open>trim\<close>, whose results follow the
  Unicode tables, are parameters of the model (below, with what the module imports).
\<close>

text \<open>\<open>s.split(' ')\<close>: the pieces between single spaces; never an empty array.\<close>

fun split_space :: "string \<Rightarrow> string list" where
  "split_space [] = [[]]"
| "split_space (c # cs) =
     (if c = CHR '' '' then [] # split_space cs
      else (case split_space cs of
              [] \<Rightarrow> [[c]]
            | w # ws \<Rightarrow> (c # w) # ws))"

text \<open>\<open>BigInt.prototype.toString()\<close> of a non-negative bigint: its decimal digits.\<close>

definition digit :: "nat \<Rightarrow> char" where
  "digit d = ''0123456789'' ! d"

function toString :: "nat \<Rightarrow> string" where
  "toString n = (if n < 10 then [digit n] else toString (n div 10) @ [digit (n mod 10)])"
  by pat_completeness auto
termination
  by (relation "measure id") auto

declare toString.simps [simp del]

text \<open>The number that a string of decimal digits denotes, to state what \<open>toString\<close> returns.\<close>

definition decimal_value :: "string \<Rightarrow> nat" where
  "decimal_value s = foldl (\<lambda>a c. 10 * a + (of_char c - 48)) 0 s"

text \<open>
  \<open>Number(x)\<close> of a non-negative bigint below \<open>2^1024\<close>: the nearest double, ties to the
  even significand. Below \<open>2^53\<close> it is the integer itself.
\<close>

function bit_length :: "nat \<Rightarrow> nat" where
  "bit_length n = (if n = 0 then 0 else Suc (bit_length (n div 2)))"
  by pat_completeness auto
termination
  by (relation "measure id") auto

declare bit_length.simps [simp del]

definition Number_of :: "nat \<Rightarrow> nat" where
  "Number_of n =
     (let k = bit_length n - 53; q = n div 2 ^ k; r = n mod 2 ^ k in
      if k = 0 then n
      else if 2 * r > 2 ^ k \<or> (2 * r = 2 ^ k \<and> odd q) then (q + 1) * 2 ^ k
      else q * 2 ^ k)"

text \<open>JSON bodies as \<open>res.json\<close> receives them; an object keeps the order of its keys.\<close>

datatype json =
    JStr string
  | JNum nat
  | JBool bool
  | JArr "json list"
  | JObj "(string \<times> json) list"

fun lookup :: "json \<Rightarrow> string \<Rightarrow> json option" where
  "lookup (JObj kvs) k = map_of kvs k"
| "lookup _ _ = None"

fun lookup_path :: "json \<Rightarrow> string list \<Rightarrow> json option" where
  "lookup_path j [] = Some j"
| "lookup_path j (k # ks) = (case lookup j k of None \<Rightarrow> None | Some j' \<Rightarrow> lookup_path j' ks)"

section \<open>The verifier and the gate (backend/middleware/x402Payment.js)\<close>

text \<open>
  What the module imports is a parameter of the model: \<open>isAddress\<close> (from viem),
  \<open>formatEther\<close> (from viem, behind \<open>formatRBTC\<close>), \<open>CONTRACT_ADDRESS\<close> (from the
  environment) and \<open>publicClient.readContract\<close>, the ledger's read interface. A read
  either yields the decoded value (a boolean, or a bigint for \<open>uint256\<close>) or rejects with
  an error (node unreachable, timeout, response that does not decode). \<open>settle_order\<close>
  is the order in time in which the four reads of one verification settle, as indices
  into the array given to \<open>Promise.all\<close>. The last two fields are the string built-ins
  \<open>String.prototype.toUpperCase\<close> and \<open>String.prototype.trim\<close>, which the route table uses.
\<close>

datatype js_error = Error (message: string)

type_synonym read_call = "string \<times> string list"

record chain =
  read_hasPaid :: "string \<Rightarrow> js_error + bool"
  read_getPaymentBalance :: "string \<Rightarrow> js_error + nat"
  read_getAvailableRequests :: "string \<Rightarrow> js_error + nat"
  read_pricePerRequest :: "js_error + nat"

record deps =
  isAddress :: "string \<Rightarrow> bool"
  formatEther :: "nat \<Rightarrow> string"
  CONTRACT_ADDRESS :: string
  publicClient :: chain
  settle_order :: "nat list"
  toUpperCase :: "string \<Rightarrow> string"
  trim :: "string \<Rightarrow> string"

definition formatRBTC :: "deps \<Rightarrow> nat \<Rightarrow> string" where
  "formatRBTC d wei = formatEther d wei"

text \<open>
  \<open>Promise.all\<close> of four promises fulfils with the four values when all fulfil, and
  otherwise rejects with the reason of the promise that rejects first in time.
\<close>

definition err_of :: "js_error + 'a \<Rightarrow> js_error option" where
  "err_of r = (case r of Inl e \<Rightarrow> Some e | Inr _ \<Rightarrow> None)"

definition first_rejection :: "nat list \<Rightarrow> js_error option list \<Rightarrow> js_error" where
  "first_rejection order errs =
     (case List.map_filter (\<lambda>i. if i < length errs then errs ! i else None)
             (order @ [0..<length errs]) of
        [] \<Rightarrow> Error []
      | e # _ \<Rightarrow> e)"

definition Promise_all ::
  "nat list \<Rightarrow> js_error + 'a \<Rightarrow> js_error + 'b \<Rightarrow> js_error + 'c \<Rightarrow> js_error + 'd
     \<Rightarrow> js_error + ('a \<times> 'b \<times> 'c \<times> 'd)" where
  "Promise_all order r0 r1 r2 r3 =
     (let rejected = Inl (first_rejection order [err_of r0, err_of r1, err_of r2, err_of r3]) in
      case r0 of Inl _ \<Rightarrow> rejected | Inr a \<Rightarrow>
      (case r1 of Inl _ \<Rightarrow> rejected | Inr b \<Rightarrow>
      (case r2 of Inl _ \<Rightarrow> rejected | Inr c \<Rightarrow>
      (case r3 of Inl _ \<Rightarrow> rejected | Inr d \<Rightarrow> Inr (a, b, c, d)))))"

record verification =
  vr_hasPaid :: bool
  vr_balance :: nat
  vr_availableRequests :: nat
  vr_pricePerRequest :: nat

text \<open>
  \<open>verifyPayment\<close> returns the ledger reads it issued together with its result: the
  verification, or the error it throws (its \<open>catch\<close> logs the error and throws it again).
\<close>

definition verifyPayment :: "deps \<Rightarrow> string \<Rightarrow> read_call list \<times> (js_error + verification)" where
  "verifyPayment d walletAddress =
     (if \<not> isAddress d walletAddress then ([], Inl (Error ''Invalid wallet address format''))
      else
        ([(''hasPaid'', [walletAddress]),
          (''getPaymentBalance'', [walletAddress]),
          (''getAvailableRequests'', [walletAddress]),
          (''pricePerRequest'', [])],
         case Promise_all (settle_order d)
                (read_hasPaid (publicClient d) walletAddress)
                (read_getPaymentBalance (publicClient d) walletAddress)
                (read_getAvailableRequests (publicClient d) walletAddress)
                (read_pricePerRequest (publicClient d)) of
           Inl error \<Rightarrow> Inl error
         | Inr (hasPaid', balance, availableRequests, pricePerRequest') \<Rightarrow>
             Inr \<lparr>vr_hasPaid = hasPaid',
                  vr_balance = balance,
                  vr_availableRequests = Number_of availableRequests,
                  vr_pricePerRequest = pricePerRequest'\<rparr>))"

definition generatePaymentInstructions :: "deps \<Rightarrow> nat \<Rightarrow> (string \<times> json) list" where
  "generatePaymentInstructions d price =
     [(''payment'', JObj
         [(''network'', JObj
             [(''chainId'', JNum 31),
              (''name'', JStr ''Rootstock Testnet''),
              (''currency'', JStr ''RBTC'')]),
          (''contract'', JObj
             [(''address'', JStr (CONTRACT_ADDRESS d)),
              (''function'', JStr ''pay''),
              (''abi'', JArr
                 [JObj [(''inputs'', JArr []),
                        (''name'', JStr ''pay''),
                        (''outputs'', JArr []),
                        (''stateMutability'', JStr ''payable''),
                        (''type'', JStr ''function'')]])]),
          (''amount'', JObj
             [(''value'', JStr (toString price)),
              (''formatted'', JStr (formatRBTC d price)),
              (''currency'', JStr ''RBTC'')]),
          (''instructions'', JObj
             [(''description'', JStr ''Send RBTC payment to the PayPerAPI contract''),
              (''steps'', JArr
                 [JStr ''Call the pay() function on the contract'',
                  JStr (''Send at least '' @ formatRBTC d price @ '' RBTC''),
                  JStr ''Wait for transaction confirmation'',
                  JStr ''Retry your API request''])])]),
      (''metadata'', JObj
         [(''standard'', JStr ''x402''),
          (''version'', JStr ''1.0''),
          (''endpoint'', JStr ''PayPerAPI on Rootstock'')])]"

record payment_info =
  pi_walletAddress :: string
  pi_balance :: string
  pi_availableRequests :: nat
  pi_pricePerRequest :: string

record route_policy =
  rp_method :: string
  rp_path :: "string option"
  rp_accepts :: "string list"
  rp_description :: string

text \<open>
  The request as the middleware sees it; \<open>req_method\<close> is \<open>req.method\<close>. Node gives the
  headers as an object keyed by the lower-case header name (one string per name);
  \<open>paymentInfo\<close> and \<open>routeMetadata\<close> are the two properties the middleware attaches.
\<close>

record request =
  req_method :: string
  path :: string
  headers :: "(string \<times> string) list"
  paymentInfo :: "payment_info option"
  routeMetadata :: "route_policy option"

text \<open>
  A middleware call ends either in \<open>res.status(n).json(body)\<close> or in \<open>next()\<close> with the
  request as it then is. With the outcome the model returns the identities handed to
  \<open>verifyPayment\<close> and the ledger reads issued. The model gives the outcome once the
  promise of \<open>verifyPayment\<close> has settled (every read settles: it fulfils or rejects);
  what the code writes to the console is left out.
\<close>

datatype outcome = Response nat json | Next request

record effect =
  outcome :: outcome
  verified :: "string list"
  reads :: "read_call list"

definition x402PaymentMiddleware :: "deps \<Rightarrow> request \<Rightarrow> effect" where
  "x402PaymentMiddleware d req =
     (case map_of (headers req) ''x-wallet-address'' of
        None \<Rightarrow>
          \<lparr>outcome = Response 400 (JObj
              [(''error'', JStr ''Missing wallet address''),
               (''message'', JStr ''Please include your wallet address in the x-wallet-address header'')]),
           verified = [], reads = []\<rparr>
      | Some walletAddress \<Rightarrow>
          if walletAddress = [] then
            \<lparr>outcome = Response 400 (JObj
                [(''error'', JStr ''Missing wallet address''),
                 (''message'', JStr ''Please include your wallet address in the x-wallet-address header'')]),
             verified = [], reads = []\<rparr>
          else
            (case verifyPayment d walletAddress of
               (issued, Inl error) \<Rightarrow>
                 \<lparr>outcome = Response 500 (JObj
                     [(''error'', JStr ''Payment verification failed''),
                      (''message'', JStr (if message error = [] then ''Unable to verify payment status''
                                          else message error))]),
                  verified = [walletAddress], reads = issued\<rparr>
             | (issued, Inr v) \<Rightarrow>
                 if \<not> vr_hasPaid v then
                   \<lparr>outcome = Response 402 (JObj
                       ([(''status'', JNum 402),
                         (''message'', JStr ''Payment Required'')]
                        @ generatePaymentInstructions d (vr_pricePerRequest v)
                        @ [(''currentStatus'', JObj
                             [(''walletAddress'', JStr walletAddress),
                              (''balance'', JStr (toString (vr_balance v))),
                              (''balanceFormatted'', JStr (formatRBTC d (vr_balance v))),
                              (''hasPaid'', JBool False),
                              (''availableRequests'', JNum 0)])])),
                    verified = [walletAddress], reads = issued\<rparr>
                 else
                   \<lparr>outcome = Next (req\<lparr>paymentInfo := Some
                       \<lparr>pi_walletAddress = walletAddress,
                        pi_balance = toString (vr_balance v),
                        pi_availableRequests = vr_availableRequests v,
                        pi_pricePerRequest = toString (vr_pricePerRequest v)\<rparr>\<rparr>),
                    verified = [walletAddress], reads = issued\<rparr>))"

section \<open>The route table (backend/middleware/x402PaymentConfig.js)\<close>

text \<open>
  The configuration object is the list of its entries in the order of \<open>Object.entries\<close>;
  each value may leave out \<open>accepts\<close> and \<open>description\<close>. A route key without a
  space has no path: the template string then renders \<open>undefined\<close>.
\<close>

record route_config =
  accepts :: "string list option"
  description :: "string option"

definition route_parts :: "deps \<Rightarrow> string \<Rightarrow> string \<times> string option" where
  "route_parts d route =
     (case map (trim d) (split_space route) of
        [] \<Rightarrow> ([], None)
      | [m] \<Rightarrow> (m, None)
      | m # p # _ \<Rightarrow> (m, Some p))"

definition render :: "string option \<Rightarrow> string" where
  "render v = (case v of None \<Rightarrow> ''undefined'' | Some s \<Rightarrow> s)"

definition route_key :: "deps \<Rightarrow> string \<Rightarrow> string" where
  "route_key d route =
     (case route_parts d route of (m, p) \<Rightarrow> toUpperCase d m @ '' '' @ render p)"

definition route_entry :: "deps \<Rightarrow> string \<times> route_config \<Rightarrow> route_policy" where
  "route_entry d e =
     (case e of (route, config) \<Rightarrow>
        (case route_parts d route of (m, p) \<Rightarrow>
           \<lparr>rp_method = toUpperCase d m,
            rp_path = p,
            rp_accepts = (case accepts config of None \<Rightarrow> [''rootstock''] | Some a \<Rightarrow> a),
            rp_description =
              (case description config of
                 None \<Rightarrow> ''Protected endpoint''
               | Some t \<Rightarrow> if t = [] then ''Protected endpoint'' else t)\<rparr>))"

definition set_route ::
  "deps \<Rightarrow> (string \<rightharpoonup> route_policy) \<Rightarrow> string \<times> route_config \<Rightarrow> (string \<rightharpoonup> route_policy)" where
  "set_route d routes e = routes(route_key d (fst e) \<mapsto> route_entry d e)"

definition load_routes ::
  "deps \<Rightarrow> (string \<rightharpoonup> route_policy) \<Rightarrow> (string \<times> route_config) list
     \<Rightarrow> (string \<rightharpoonup> route_policy)" where
  "load_routes d routes routeConfig = foldl (set_route d) routes routeConfig"

definition route_table ::
  "deps \<Rightarrow> (string \<times> route_config) list \<Rightarrow> (string \<rightharpoonup> route_policy)" where
  "route_table d routeConfig = load_routes d Map.empty routeConfig"

definition paymentMiddleware :: "deps \<Rightarrow> (string \<times> route_config) list \<Rightarrow> request \<Rightarrow> effect" where
  "paymentMiddleware d routeConfig =
     (let routes = route_table d routeConfig in
      (\<lambda>req.
         let routeKey = req_method req @ '' '' @ path req in
         case routes routeKey of
           Some rc \<Rightarrow> x402PaymentMiddleware d (req\<lparr>routeMetadata := Some rc\<rparr>)
         | None \<Rightarrow> \<lparr>outcome = Next req, verified = [], reads = []\<rparr>))"

section \<open>A concrete setting\<close>

text \<open>
  The parameters instantiated, for the examples below: the three paid routes that
  \<open>server.js\<close> configures, the default contract address of \<open>config/rootstock.js\<close>,
  a node whose four reads give fixed answers, the address \<open>0x1\<close> that the contract's tests
  name \<open>payer1\<close>, a request with nothing attached yet, the two viem functions and the
  two string built-ins. viem's \<open>formatEther\<close> is \<open>formatUnits\<close> at 18 decimals; of viem's
  \<open>isAddress\<close> only the shape test \<open>^0x[a-fA-F0-9]{40}$\<close> is given, with which it agrees
  on every string that fails the test and on every lower-case string. The built-ins are
  given on ASCII strings, where \<open>toUpperCase\<close> maps the letters \<open>a\<close> to \<open>z\<close> and \<open>trim\<close>
  removes the white space of codes 9 to 13 and 32 at both ends; every string of the
  examples is ASCII.
\<close>

definition ascii_toUpperCase :: "string \<Rightarrow> string" where
  "ascii_toUpperCase s =
     map (\<lambda>c. let n = of_char c :: nat in
               if 97 \<le> n \<and> n \<le> 122 then char_of (n - 32) else c) s"

definition ascii_space :: "char \<Rightarrow> bool" where
  "ascii_space c = (let n = of_char c :: nat in (9 \<le> n \<and> n \<le> 13) \<or> n = 32)"

definition ascii_trim :: "string \<Rightarrow> string" where
  "ascii_trim s = rev (dropWhile ascii_space (rev (dropWhile ascii_space s)))"

definition is_hex :: "char \<Rightarrow> bool" where
  "is_hex c = (c \<in> set ''0123456789abcdefABCDEF'')"

definition hex_address_shape :: "string \<Rightarrow> bool" where
  "hex_address_shape s = (length s = 42 \<and> take 2 s = ''0x'' \<and> list_all is_hex (drop 2 s))"

definition formatUnits :: "nat \<Rightarrow> nat \<Rightarrow> string" where
  "formatUnits v decimals =
     (let display = toString v;
          display = replicate (decimals - length display) (CHR ''0'') @ display;
          integer = take (length display - decimals) display;
          fraction = drop (length display - decimals) display;
          fraction = rev (dropWhile (\<lambda>c. c = CHR ''0'') (rev fraction))
      in (if integer = [] then ''0'' else integer) @ (if fraction = [] then [] else ''.'' @ fraction))"

definition answering ::
  "js_error + bool \<Rightarrow> js_error + nat \<Rightarrow> js_error + nat \<Rightarrow> js_error + nat \<Rightarrow> chain" where
  "answering hp bal av price =
     \<lparr>read_hasPaid = (\<lambda>_. hp),
      read_getPaymentBalance = (\<lambda>_. bal),
      read_getAvailableRequests = (\<lambda>_. av),
      read_pricePerRequest = price\<rparr>"

definition server_deps :: "chain \<Rightarrow> deps" where
  "server_deps c =
     \<lparr>isAddress = hex_address_shape,
      formatEther = (\<lambda>wei. formatUnits wei 18),
      CONTRACT_ADDRESS = ''0xa1f4d43749abedb6a835af9184cd0a9c194d4c8a'',
      publicClient = c,
      settle_order = [0, 1, 2, 3],
      toUpperCase = ascii_toUpperCase,
      trim = ascii_trim\<rparr>"

definition server_routes :: "(string \<times> route_config) list" where
  "server_routes =
     [(''GET /api/data'',
         \<lparr>accepts = Some [''rootstock''], description = Some ''Protected data API''\<rparr>),
      (''GET /api/weather'',
         \<lparr>accepts = Some [''rootstock''], description = Some ''Weather data API''\<rparr>),
      (''POST /api/ai/infer'',
         \<lparr>accepts = Some [''rootstock''], description = Some ''AI inference service''\<rparr>)]"

definition payer1 :: string where
  "payer1 = ''0x0000000000000000000000000000000000000001''"

definition incoming :: "string \<Rightarrow> string \<Rightarrow> (string \<times> string) list \<Rightarrow> request" where
  "incoming m p hs =
     \<lparr>req_method = m, path = p, headers = hs, paymentInfo = None, routeMetadata = None\<rparr>"

section \<open>Properties of the contract\<close>

lemma exec_run_frame:
  "\<forall>s'. exec c s = Inr s' \<longrightarrow> pricePerRequest s' = pricePerRequest s \<and> owner s' = owner s"
  "pricePerRequest (run s cs) = pricePerRequest s \<and> owner (run s cs) = owner s"
proof (induction c s and s cs rule: exec_run.induct)
  case (1 sender v s)
  show ?case by (auto simp: pay_def Let_def checked_add_def split: if_splits)
next
  case (2 sender payer amount s)
  show ?case by (auto simp: deductPayment_def checked_sub_def split: if_splits)
next
  case (3 sender reentered success s)
  then show ?case by (auto simp: withdraw_def Let_def split: if_splits)
next
  case (4 s)
  show ?case by (simp add: run.simps)
next
  case (5 s c cs)
  show ?case
  proof (cases "exec c s")
    case (Inl e)
    with 5 show ?thesis by (simp add: run.simps)
  next
    case (Inr s')
    with 5 show ?thesis by (simp add: run.simps)
  qed
qed

lemma run_price: "pricePerRequest (run s cs) = pricePerRequest s"
  by (simp add: exec_run_frame)

lemma run_Cons: "run s (c # cs) = run (transact s c) cs"
  by (simp add: transact_def run.simps)

lemma floor_division:
  fixes b p :: uint256
  assumes "p \<noteq> 0"
  shows "unat (b div p) = unat b div unat p"
    and "p \<le> b \<longleftrightarrow> 1 \<le> unat (b div p)"
    and "p \<le> b \<longleftrightarrow> unat p \<le> unat b"
proof -
  have pos: "0 < unat p" using assms by (simp add: unat_gt_0)
  show d: "unat (b div p) = unat b div unat p" by (simp add: unat_div)
  show le: "p \<le> b \<longleftrightarrow> unat p \<le> unat b" by (simp add: word_le_nat_alt)
  have "unat p \<le> unat b \<longleftrightarrow> 1 \<le> unat b div unat p"
    using pos by (simp add: Suc_le_eq div_greater_zero_iff)
  with d le show "p \<le> b \<longleftrightarrow> 1 \<le> unat (b div p)" by simp
qed

text \<open>
  C1. A ledger is created only with a price \<open>p > 0\<close>, and no transaction changes the
  price. On every ledger with \<open>p > 0\<close> and for every identity, with balance \<open>b\<close>:
  \<open>getAvailableRequests\<close> returns \<open>floor(b / p)\<close>, and \<open>hasPaid\<close> holds exactly when that
  quotient is at least 1, which is exactly when \<open>b \<ge> p\<close>.
\<close>

theorem available_requests_floor:
  "(new_PayPerAPI deployer p = Inr s0 \<longrightarrow>
      p > 0 \<and> pricePerRequest (run s0 cs) = p) \<and>
   (new_PayPerAPI deployer p = Inl (Require ''Price must be greater than zero'') \<longleftrightarrow> \<not> p > 0) \<and>
   (pricePerRequest s > 0 \<longrightarrow>
      getAvailableRequests s a = Inr (paymentBalances s a div pricePerRequest s) \<and>
      unat (paymentBalances s a div pricePerRequest s) =
        unat (paymentBalances s a) div unat (pricePerRequest s) \<and>
      (hasPaid s a \<longleftrightarrow> 1 \<le> unat (paymentBalances s a div pricePerRequest s)) \<and>
      (hasPaid s a \<longleftrightarrow> unat (pricePerRequest s) \<le> unat (paymentBalances s a)))"
proof -
  have 1: "new_PayPerAPI deployer p = Inr s0 \<longrightarrow> p > 0 \<and> pricePerRequest (run s0 cs) = p"
    by (auto simp: new_PayPerAPI_def run_price deployed_def split: if_splits)
  have 2: "new_PayPerAPI deployer p = Inl (Require ''Price must be greater than zero'') \<longleftrightarrow> \<not> p > 0"
    by (simp add: new_PayPerAPI_def)
  have 3: "pricePerRequest s > 0 \<longrightarrow>
      getAvailableRequests s a = Inr (paymentBalances s a div pricePerRequest s) \<and>
      unat (paymentBalances s a div pricePerRequest s) =
        unat (paymentBalances s a) div unat (pricePerRequest s) \<and>
      (hasPaid s a \<longleftrightarrow> 1 \<le> unat (paymentBalances s a div pricePerRequest s)) \<and>
      (hasPaid s a \<longleftrightarrow> unat (pricePerRequest s) \<le> unat (paymentBalances s a))"
  proof
    assume "pricePerRequest s > 0"
    then have p: "pricePerRequest s \<noteq> 0" by (simp add: word_greater_zero_iff)
    have av: "getAvailableRequests s a = Inr (paymentBalances s a div pricePerRequest s)"
      using p by (simp add: getAvailableRequests_def checked_div_def)
    have hp: "hasPaid s a \<longleftrightarrow> pricePerRequest s \<le> paymentBalances s a"
      by (simp add: hasPaid_def)
    show "getAvailableRequests s a = Inr (paymentBalances s a div pricePerRequest s) \<and>
      unat (paymentBalances s a div pricePerRequest s) =
        unat (paymentBalances s a) div unat (pricePerRequest s) \<and>
      (hasPaid s a \<longleftrightarrow> 1 \<le> unat (paymentBalances s a div pricePerRequest s)) \<and>
      (hasPaid s a \<longleftrightarrow> unat (pricePerRequest s) \<le> unat (paymentBalances s a))"
      using av hp floor_division [OF p, of "paymentBalances s a"] by simp
  qed
  from 1 2 3 show ?thesis by (intro conjI)
qed

theorem available_requests_floor_witness:
  "new_PayPerAPI 9 1000 = Inr (deployed 9 1000) \<and>
   pricePerRequest (run (deployed 9 1000) [Pay 1 2500]) = 1000 \<and>
   paymentBalances (run (deployed 9 1000) [Pay 1 2500]) 1 = 2500 \<and>
   getAvailableRequests (run (deployed 9 1000) [Pay 1 2500]) 1 = Inr 2 \<and>
   hasPaid (run (deployed 9 1000) [Pay 1 2500]) 1 \<and>
   new_PayPerAPI 9 0 = Inl (Require ''Price must be greater than zero'')"
proof -
  let ?s = "run (deployed 9 1000) [Pay 1 2500]"
  have h: "new_PayPerAPI 9 1000 = Inr (deployed 9 1000)"
    by (simp add: new_PayPerAPI_def)
  have b: "paymentBalances ?s 1 = 2500"
    by (simp add: run.simps transact_def pay_def deployed_def checked_add_def Let_def)
  note t = available_requests_floor [of 9 1000 "deployed 9 1000" "[Pay 1 2500]" ?s 1]
  from t h have pr: "pricePerRequest ?s = 1000" by blast
  then have pos: "pricePerRequest ?s > 0" by simp
  from t pos have "getAvailableRequests ?s 1 = Inr (paymentBalances ?s 1 div pricePerRequest ?s) \<and>
      (hasPaid ?s 1 \<longleftrightarrow> unat (pricePerRequest ?s) \<le> unat (paymentBalances ?s 1))"
    by blast
  then have av: "getAvailableRequests ?s 1 = Inr 2" and hp: "hasPaid ?s 1"
    by (simp_all add: pr b)
  have z: "new_PayPerAPI 9 0 = Inl (Require ''Price must be greater than zero'')"
    using available_requests_floor [of 9 0] by simp
  from h pr b av hp z show ?thesis by (intro conjI)
qed

lemma pay_result:
  "pay a v s =
     (if 2 ^ 256 \<le> unat (held s) + unat v then Inl TransferFailed
      else if v = 0 then Inl (Require ''Payment amount must be greater than zero'')
      else if 2 ^ 256 \<le> unat (paymentBalances s a) + unat v then Inl (Panic 17)
      else Inr (s\<lparr>held := held s + v,
                  paymentBalances := (paymentBalances s)(a := paymentBalances s a + v),
                  events := events s @ [PaymentReceived a v (paymentBalances s a + v)]\<rparr>))"
  by (simp add: pay_def checked_add_def Let_def word_greater_zero_iff not_less)

lemma unat_add_exact:
  fixes b v :: uint256
  assumes "\<not> 2 ^ 256 \<le> unat b + unat v"
  shows "unat (b + v) = unat b + unat v"
proof -
  have "unat b + unat v < 2 ^ LENGTH(256)" using assms by simp
  then show ?thesis by (simp only: unat_add_lem [THEN iffD1])
qed

text \<open>
  C7 (amended). \<open>pay\<close> fails exactly when the amount is not strictly positive, or the
  incremented balance would not fit in \<open>uint256\<close>, or the currency held by the contract
  together with the amount would not; a failed call leaves the state as it was. On
  success the identity's balance grows by exactly the amount, no other balance changes,
  one \<open>PaymentReceived\<close> event is emitted whose \<open>newBalance\<close> is the updated balance, and a
  second successful \<open>pay\<close> adds on top of the first.
\<close>

theorem pay_checked:
  "(isl (pay a v s) \<longleftrightarrow>
      \<not> 0 < v \<or> 2 ^ 256 \<le> unat (paymentBalances s a) + unat v
              \<or> 2 ^ 256 \<le> unat (held s) + unat v) \<and>
   (isl (pay a v s) \<longrightarrow> transact s (Pay a v) = s) \<and>
   (\<forall>s'. pay a v s = Inr s' \<longrightarrow>
      transact s (Pay a v) = s' \<and>
      unat (paymentBalances s' a) = unat (paymentBalances s a) + unat v \<and>
      (\<forall>x. x \<noteq> a \<longrightarrow> paymentBalances s' x = paymentBalances s x) \<and>
      unat (held s') = unat (held s) + unat v \<and>
      events s' = events s @ [PaymentReceived a v (paymentBalances s' a)] \<and>
      (\<forall>w s''. pay a w s' = Inr s'' \<longrightarrow>
         unat (paymentBalances s'' a) = unat (paymentBalances s a) + unat v + unat w))"
proof (intro conjI allI impI)
  show "isl (pay a v s) \<longleftrightarrow>
      \<not> 0 < v \<or> 2 ^ 256 \<le> unat (paymentBalances s a) + unat v
              \<or> 2 ^ 256 \<le> unat (held s) + unat v"
    by (auto simp: pay_result word_greater_zero_iff)
next
  assume "isl (pay a v s)"
  then show "transact s (Pay a v) = s"
    by (auto simp: transact_def isl_def)
next
  fix s' assume ok: "pay a v s = Inr s'"
  show "transact s (Pay a v) = s'" using ok by (simp add: transact_def)
  from ok have nz: "v \<noteq> 0" and fit: "\<not> 2 ^ 256 \<le> unat (paymentBalances s a) + unat v"
    and hfit: "\<not> 2 ^ 256 \<le> unat (held s) + unat v"
    and s': "s' = s\<lparr>held := held s + v,
                  paymentBalances := (paymentBalances s)(a := paymentBalances s a + v),
                  events := events s @ [PaymentReceived a v (paymentBalances s a + v)]\<rparr>"
    by (auto simp: pay_result split: if_splits)
  show bal: "unat (paymentBalances s' a) = unat (paymentBalances s a) + unat v"
    using unat_add_exact [OF fit] by (simp add: s')
  show "unat (held s') = unat (held s) + unat v"
    using unat_add_exact [OF hfit] by (simp add: s')
  show "events s' = events s @ [PaymentReceived a v (paymentBalances s' a)]"
    by (simp add: s')
  { fix x assume "x \<noteq> a"
    then show "paymentBalances s' x = paymentBalances s x" by (simp add: s') }
  { fix w s'' assume ok2: "pay a w s' = Inr s''"
    then have fit2: "\<not> 2 ^ 256 \<le> unat (paymentBalances s' a) + unat w"
      and s'': "paymentBalances s'' a = paymentBalances s' a + w"
      by (auto simp: pay_result split: if_splits)
    show "unat (paymentBalances s'' a) = unat (paymentBalances s a) + unat v + unat w"
      using unat_add_exact [OF fit2] bal by (simp add: s'') }
qed

theorem pay_checked_witness:
  "isl (pay 1 0 (deployed 9 1000)) \<and> transact (deployed 9 1000) (Pay 1 0) = deployed 9 1000 \<and>
   \<not> isl (pay 1 2500 (deployed 9 1000)) \<and>
   unat (paymentBalances (transact (deployed 9 1000) (Pay 1 2500)) 1) = 2500 \<and>
   paymentBalances (transact (deployed 9 1000) (Pay 1 2500)) 2 = 0 \<and>
   events (transact (deployed 9 1000) (Pay 1 2500)) = [PaymentReceived 1 2500 2500] \<and>
   unat (paymentBalances (run (deployed 9 1000) [Pay 1 2500, Pay 1 500]) 1) = 3000"
proof -
  let ?s = "deployed 9 1000"
  let ?s1 = "?s\<lparr>held := 2500, paymentBalances := (paymentBalances ?s)(1 := 2500),
                 events := [PaymentReceived 1 2500 2500]\<rparr>"
  let ?s2 = "?s1\<lparr>held := 3000, paymentBalances := (paymentBalances ?s1)(1 := 3000),
                 events := [PaymentReceived 1 2500 2500, PaymentReceived 1 500 3000]\<rparr>"
  have p1: "pay 1 2500 ?s = Inr ?s1"
    by (simp add: pay_def checked_add_def Let_def deployed_def)
  have p2: "pay 1 500 ?s1 = Inr ?s2"
    by (simp add: pay_def checked_add_def Let_def deployed_def)
  have r: "run ?s [Pay 1 2500, Pay 1 500] = ?s2"
    by (simp add: run.simps p1 p2)
  have z: "isl (pay 1 0 ?s)" by (simp add: pay_def Let_def deployed_def)
  note w0 = pay_checked [of 1 0 ?s]
  note w1 = pay_checked [of 1 2500 ?s]
  from w0 z have a: "transact ?s (Pay 1 0) = ?s" by blast
  from w1 p1 have b: "transact ?s (Pay 1 2500) = ?s1 \<and>
      unat (paymentBalances ?s1 1) = unat (paymentBalances ?s 1) + unat (2500 :: uint256) \<and>
      (\<forall>x. x \<noteq> 1 \<longrightarrow> paymentBalances ?s1 x = paymentBalances ?s x) \<and>
      events ?s1 = events ?s @ [PaymentReceived 1 2500 (paymentBalances ?s1 1)] \<and>
      (\<forall>w s''. pay 1 w ?s1 = Inr s'' \<longrightarrow>
         unat (paymentBalances s'' 1) = unat (paymentBalances ?s 1) + unat (2500 :: uint256) + unat w)"
    by blast
  from b p2 have c: "unat (paymentBalances ?s2 1) = unat (paymentBalances ?s 1) + unat (2500 :: uint256) + unat (500 :: uint256)"
    by blast
  show ?thesis using z a b c p1 r by (simp add: deployed_def)
qed

text \<open>
  The claim as stated, that \<open>pay\<close> fails only for an amount that is not strictly
  positive, fails on a balance at the top of the \<open>uint256\<close> range: after the owner has
  withdrawn, the contract holds nothing, the transfer of 1 goes through, and the checked
  addition to the balance reverts. Before the withdrawal the contract's holding is at
  the top of the range, and a payment of 1 by another identity fails at the transfer.
\<close>

theorem pay_overflow_counterexample:
  "(0 :: uint256) < 1 \<and>
   paymentBalances (run (deployed 9 1000)
       [Pay 1 115792089237316195423570985008687907853269984665640564039457584007913129639935,
        Withdraw 9 [] True]) 1
     = 115792089237316195423570985008687907853269984665640564039457584007913129639935 \<and>
   held (run (deployed 9 1000)
       [Pay 1 115792089237316195423570985008687907853269984665640564039457584007913129639935,
        Withdraw 9 [] True]) = 0 \<and>
   pay 1 1 (run (deployed 9 1000)
       [Pay 1 115792089237316195423570985008687907853269984665640564039457584007913129639935,
        Withdraw 9 [] True])
     = Inl (Panic 17) \<and>
   pay 2 1 (run (deployed 9 1000)
       [Pay 1 115792089237316195423570985008687907853269984665640564039457584007913129639935])
     = Inl TransferFailed"
  by (simp add: run.simps pay_def checked_add_def withdraw_def Let_def deployed_def)

lemma deductPayment_result:
  "deductPayment c payer amount s =
     (if c \<noteq> owner s then Inl (Require ''Only owner can deduct payments'')
      else if paymentBalances s payer < amount then Inl (Require ''Insufficient balance'')
      else Inr (s\<lparr>paymentBalances := (paymentBalances s)(payer := paymentBalances s payer - amount)\<rparr>))"
  by (simp add: deductPayment_def checked_sub_def not_le)

text \<open>
  C8. \<open>deductPayment\<close> fails for every caller other than the owner, and the payer's
  balance is then unchanged; called by the owner it fails when the amount exceeds the
  payer's balance, and otherwise lowers that balance by exactly the amount, the result
  being the non-negative difference, and changes no other balance.
\<close>

theorem deductPayment_guarded:
  "(c \<noteq> owner s \<longrightarrow>
      deductPayment c payer amount s = Inl (Require ''Only owner can deduct payments'') \<and>
      paymentBalances (transact s (DeductPayment c payer amount)) payer = paymentBalances s payer) \<and>
   (c = owner s \<and> unat (paymentBalances s payer) < unat amount \<longrightarrow>
      deductPayment c payer amount s = Inl (Require ''Insufficient balance'') \<and>
      transact s (DeductPayment c payer amount) = s) \<and>
   (c = owner s \<and> unat amount \<le> unat (paymentBalances s payer) \<longrightarrow>
      (\<exists>s'. deductPayment c payer amount s = Inr s' \<and>
            transact s (DeductPayment c payer amount) = s' \<and>
            int (unat (paymentBalances s' payer)) =
              int (unat (paymentBalances s payer)) - int (unat amount) \<and>
            (\<forall>x. x \<noteq> payer \<longrightarrow> paymentBalances s' x = paymentBalances s x)))"
proof (intro conjI impI)
  assume "c \<noteq> owner s"
  then show "deductPayment c payer amount s = Inl (Require ''Only owner can deduct payments'')"
    and "paymentBalances (transact s (DeductPayment c payer amount)) payer = paymentBalances s payer"
    by (simp_all add: deductPayment_result transact_def)
next
  assume "c = owner s \<and> unat (paymentBalances s payer) < unat amount"
  then have "c = owner s" and "paymentBalances s payer < amount"
    by (simp_all add: word_less_nat_alt)
  then show "deductPayment c payer amount s = Inl (Require ''Insufficient balance'')"
    and "transact s (DeductPayment c payer amount) = s"
    by (simp_all add: deductPayment_result transact_def)
next
  assume "c = owner s \<and> unat amount \<le> unat (paymentBalances s payer)"
  then have o: "c = owner s" and le: "amount \<le> paymentBalances s payer"
    by (simp_all add: word_le_nat_alt)
  let ?s' = "s\<lparr>paymentBalances := (paymentBalances s)(payer := paymentBalances s payer - amount)\<rparr>"
  have r: "deductPayment c payer amount s = Inr ?s'"
    using o le by (simp add: deductPayment_result not_less [symmetric] leD)
  have "unat (paymentBalances s payer - amount) = unat (paymentBalances s payer) - unat amount"
    using le by (simp add: unat_sub)
  moreover have "unat amount \<le> unat (paymentBalances s payer)"
    using le by (simp add: word_le_nat_alt)
  ultimately have d: "int (unat (paymentBalances ?s' payer)) =
      int (unat (paymentBalances s payer)) - int (unat amount)"
    by simp
  show "\<exists>s'. deductPayment c payer amount s = Inr s' \<and>
            transact s (DeductPayment c payer amount) = s' \<and>
            int (unat (paymentBalances s' payer)) =
              int (unat (paymentBalances s payer)) - int (unat amount) \<and>
            (\<forall>x. x \<noteq> payer \<longrightarrow> paymentBalances s' x = paymentBalances s x)"
    using r d by (intro exI [of _ ?s']) (simp add: transact_def)
qed

theorem deductPayment_guarded_witness:
  "deductPayment 1 1 1000 (run (deployed 9 1000) [Pay 1 2500])
      = Inl (Require ''Only owner can deduct payments'') \<and>
   paymentBalances (run (deployed 9 1000) [Pay 1 2500, DeductPayment 1 1 1000]) 1 = 2500 \<and>
   deductPayment 9 1 2501 (run (deployed 9 1000) [Pay 1 2500])
      = Inl (Require ''Insufficient balance'') \<and>
   paymentBalances (run (deployed 9 1000) [Pay 1 2500, DeductPayment 9 1 1000]) 1 = 1500"
proof -
  let ?s1 = "run (deployed 9 1000) [Pay 1 2500]"
  have o: "owner ?s1 = 9" and b: "paymentBalances ?s1 1 = 2500"
    by (simp_all add: run.simps transact_def pay_def checked_add_def Let_def deployed_def)
  have r: "\<And>c. run (deployed 9 1000) [Pay 1 2500, c] = transact ?s1 c"
    by (simp add: run.simps transact_def)
  from deductPayment_guarded [of 1 ?s1 1 1000] o
  have a: "deductPayment 1 1 1000 ?s1 = Inl (Require ''Only owner can deduct payments'')"
    and a': "paymentBalances (transact ?s1 (DeductPayment 1 1 1000)) 1 = 2500"
    by (simp_all add: b)
  from deductPayment_guarded [of 9 ?s1 1 2501] o b
  have c: "deductPayment 9 1 2501 ?s1 = Inl (Require ''Insufficient balance'')"
    by simp
  from deductPayment_guarded [of 9 ?s1 1 1000] o b
  have "int (unat (paymentBalances (transact ?s1 (DeductPayment 9 1 1000)) 1)) = 1500"
    by auto
  then have "unat (paymentBalances (transact ?s1 (DeductPayment 9 1 1000)) 1) = 1500"
    by linarith
  then have "unat (paymentBalances (transact ?s1 (DeductPayment 9 1 1000)) 1) = unat (1500 :: uint256)"
    by simp
  then have d: "paymentBalances (transact ?s1 (DeductPayment 9 1 1000)) 1 = 1500"
    by (simp only: word_unat_eq_iff)
  show ?thesis using a a' c d by (simp add: r)
qed

lemma withdraw_result:
  "withdraw c receiver success s = Inr s' \<Longrightarrow>
     c = owner s \<and> 0 < held s \<and> success \<and>
     s' = (receiver (s\<lparr>held := 0, sent := sent s @ [(owner s, held s)]\<rparr>))
            \<lparr>events := events (receiver (s\<lparr>held := 0, sent := sent s @ [(owner s, held s)]\<rparr>))
                       @ [FundsWithdrawn (owner s) (held s)]\<rparr>"
  by (auto simp: withdraw_def Let_def split: if_splits)

lemma exec_run_sent_mono:
  "\<forall>s'. exec c s = Inr s' \<longrightarrow> set (sent s) \<subseteq> set (sent s')"
  "set (sent s) \<subseteq> set (sent (run s cs))"
proof (induction c s and s cs rule: exec_run.induct)
  case (1 sender v s)
  show ?case by (auto simp: pay_def Let_def checked_add_def split: if_splits)
next
  case (2 sender payer amount s)
  show ?case by (auto simp: deductPayment_def checked_sub_def split: if_splits)
next
  case (3 sender reentered success s)
  show ?case
  proof (intro allI impI)
    fix s' assume "exec (Withdraw sender reentered success) s = Inr s'"
    then have w: "withdraw sender (\<lambda>t. run t reentered) success s = Inr s'" by simp
    let ?s1 = "s\<lparr>held := 0, sent := sent s @ [(owner s, held s)]\<rparr>"
    from withdraw_result [OF w] have "sent s' = sent (run ?s1 reentered)" by simp
    moreover have "set (sent ?s1) \<subseteq> set (sent (run ?s1 reentered))" by (rule 3)
    ultimately show "set (sent s) \<subseteq> set (sent s')" by auto
  qed
next
  case (4 s)
  show ?case by (simp add: run.simps)
next
  case (5 s c cs)
  show ?case
  proof (cases "exec c s")
    case (Inl e)
    with 5 show ?thesis by (simp add: run.simps)
  next
    case (Inr s')
    with 5 show ?thesis by (auto simp: run.simps)
  qed
qed

lemma run_sent_mono: "x \<in> set (sent s) \<Longrightarrow> x \<in> set (sent (run s cs))"
  using exec_run_sent_mono(2) by blast

text \<open>
  C10 (amended). A successful \<open>withdraw\<close> is called by the owner and moves the whole held
  currency to the owner. It writes no entry of \<open>paymentBalances\<close> itself: the entries
  after it are those left by the calls that the owner's account made back into the
  contract while it received the currency. When that account makes no such call, every
  entry is as before, so \<open>getPaymentBalance\<close>, \<open>hasPaid\<close> and \<open>getAvailableRequests\<close> return
  for every identity what they returned before the withdrawal, and the contract holds
  nothing afterwards.
\<close>

theorem withdraw_frame:
  assumes "exec (Withdraw c reentered success) s = Inr s'"
  shows "c = owner s \<and> 0 < held s \<and>
         pricePerRequest s' = pricePerRequest s \<and>
         (owner s, held s) \<in> set (sent s') \<and>
         FundsWithdrawn (owner s) (held s) \<in> set (events s') \<and>
         paymentBalances s' =
           paymentBalances (run (s\<lparr>held := 0, sent := sent s @ [(owner s, held s)]\<rparr>) reentered) \<and>
         (reentered = [] \<longrightarrow>
            paymentBalances s' = paymentBalances s \<and>
            (\<forall>a. getPaymentBalance s' a = getPaymentBalance s a \<and>
                 hasPaid s' a = hasPaid s a \<and>
                 getAvailableRequests s' a = getAvailableRequests s a) \<and>
            getContractBalance s' = 0 \<and>
            sent s' = sent s @ [(owner s, held s)] \<and>
            events s' = events s @ [FundsWithdrawn (owner s) (held s)])"
proof -
  let ?s1 = "s\<lparr>held := 0, sent := sent s @ [(owner s, held s)]\<rparr>"
  let ?t = "run ?s1 reentered"
  from assms have w: "withdraw c (\<lambda>t. run t reentered) success s = Inr s'" by simp
  from withdraw_result [OF w]
  have c: "c = owner s" and h: "0 < held s"
    and s': "s' = ?t\<lparr>events := events ?t @ [FundsWithdrawn (owner s) (held s)]\<rparr>"
    by simp_all
  have price: "pricePerRequest s' = pricePerRequest s"
    by (simp add: s' run_price)
  have ev: "FundsWithdrawn (owner s) (held s) \<in> set (events s')"
    by (simp add: s')
  have bal: "paymentBalances s' = paymentBalances ?t"
    by (simp add: s')
  have "(owner s, held s) \<in> set (sent ?s1)" by simp
  then have "(owner s, held s) \<in> set (sent ?t)" by (rule run_sent_mono)
  then have snt: "(owner s, held s) \<in> set (sent s')" by (simp add: s')
  have none: "reentered = [] \<longrightarrow>
            paymentBalances s' = paymentBalances s \<and>
            (\<forall>a. getPaymentBalance s' a = getPaymentBalance s a \<and>
                 hasPaid s' a = hasPaid s a \<and>
                 getAvailableRequests s' a = getAvailableRequests s a) \<and>
            getContractBalance s' = 0 \<and>
            sent s' = sent s @ [(owner s, held s)] \<and>
            events s' = events s @ [FundsWithdrawn (owner s) (held s)]"
    by (simp add: s' run.simps getPaymentBalance_def hasPaid_def getAvailableRequests_def
          getContractBalance_def)
  from c h price snt ev bal none show ?thesis by (intro conjI)
qed

theorem withdraw_frame_witness:
  "exec (Withdraw 9 [] True) (run (deployed 9 1000) [Pay 1 2500])
     = Inr (run (deployed 9 1000) [Pay 1 2500, Withdraw 9 [] True]) \<and>
   getContractBalance (run (deployed 9 1000) [Pay 1 2500]) = 2500 \<and>
   getContractBalance (run (deployed 9 1000) [Pay 1 2500, Withdraw 9 [] True]) = 0 \<and>
   sent (run (deployed 9 1000) [Pay 1 2500, Withdraw 9 [] True]) = [(9, 2500)] \<and>
   getPaymentBalance (run (deployed 9 1000) [Pay 1 2500, Withdraw 9 [] True]) 1 = 2500 \<and>
   hasPaid (run (deployed 9 1000) [Pay 1 2500, Withdraw 9 [] True]) 1 \<and>
   getAvailableRequests (run (deployed 9 1000) [Pay 1 2500, Withdraw 9 [] True]) 1 = Inr 2"
proof -
  let ?s1 = "run (deployed 9 1000) [Pay 1 2500]"
  let ?s2 = "run (deployed 9 1000) [Pay 1 2500, Withdraw 9 [] True]"
  have s1: "?s1 = (deployed 9 1000)\<lparr>held := 2500,
       paymentBalances := (\<lambda>_. 0)(1 := 2500), events := [PaymentReceived 1 2500 2500]\<rparr>"
    by (simp add: run.simps pay_def checked_add_def Let_def deployed_def)
  have w: "exec (Withdraw 9 [] True) ?s1 = Inr ?s2"
    by (simp add: run.simps pay_def checked_add_def withdraw_def Let_def deployed_def)
  have pre: "getContractBalance ?s1 = 2500 \<and> sent ?s1 = [] \<and> owner ?s1 = 9 \<and> held ?s1 = 2500
      \<and> getPaymentBalance ?s1 1 = 2500 \<and> hasPaid ?s1 1 \<and> getAvailableRequests ?s1 1 = Inr 2"
    unfolding s1
    by (simp add: getContractBalance_def getPaymentBalance_def hasPaid_def
          getAvailableRequests_def checked_div_def deployed_def)
  show ?thesis using withdraw_frame [OF w] pre w by simp
qed

text \<open>
  The claim as stated fails for an owner that is a contract: while it receives the
  currency of a successful \<open>withdraw\<close>, the owner's account calls \<open>deductPayment\<close>, which
  the contract accepts from its owner; the payer's balance goes from 2500 to 1500 and
  the available requests from 2 to 1.
\<close>

theorem withdraw_reentry_counterexample:
  "\<not> isl (exec (Withdraw 9 [DeductPayment 9 1 1000] True) (run (deployed 9 1000) [Pay 1 2500])) \<and>
   getPaymentBalance (run (deployed 9 1000) [Pay 1 2500]) 1 = 2500 \<and>
   getAvailableRequests (run (deployed 9 1000) [Pay 1 2500]) 1 = Inr 2 \<and>
   getPaymentBalance
     (run (deployed 9 1000) [Pay 1 2500, Withdraw 9 [DeductPayment 9 1 1000] True]) 1 = 1500 \<and>
   getAvailableRequests
     (run (deployed 9 1000) [Pay 1 2500, Withdraw 9 [DeductPayment 9 1 1000] True]) 1 = Inr 1"
  by (simp add: run.simps pay_def checked_add_def withdraw_def deductPayment_def checked_sub_def
        getPaymentBalance_def getAvailableRequests_def checked_div_def Let_def deployed_def)

section \<open>Properties of the middleware\<close>

lemma digit_value: "d < 10 \<Longrightarrow> of_char (digit d) - 48 = d"
proof -
  assume "d < 10"
  then have "d \<in> {0, 1, 2, 3, 4, 5, 6, 7, 8, 9}" by auto
  then show ?thesis by (auto simp: digit_def)
qed

lemma decimal_value_snoc: "decimal_value (s @ [c]) = 10 * decimal_value s + (of_char c - 48)"
  by (simp add: decimal_value_def)

lemma toString_decimal: "decimal_value (toString n) = n"
proof (induction n rule: toString.induct)
  case (1 n)
  show ?case
  proof (cases "n < 10")
    case True
    then show ?thesis
      by (subst toString.simps) (simp add: decimal_value_def digit_value)
  next
    case False
    have "decimal_value (toString n) =
            10 * decimal_value (toString (n div 10)) + (of_char (digit (n mod 10)) - 48)"
      using False by (subst toString.simps) (simp add: decimal_value_snoc)
    also have "\<dots> = 10 * (n div 10) + n mod 10"
      using 1 False by (simp add: digit_value)
    finally show ?thesis by simp
  qed
qed

lemma digit_in_digits: "d < 10 \<Longrightarrow> digit d \<in> set ''0123456789''"
proof -
  assume "d < 10"
  then have "d \<in> {0, 1, 2, 3, 4, 5, 6, 7, 8, 9}" by auto
  then show ?thesis by (auto simp: digit_def)
qed

lemma toString_digits: "set (toString n) \<subseteq> set ''0123456789''"
proof (induction n rule: toString.induct)
  case (1 n)
  show ?case
  proof (cases "n < 10")
    case True
    then show ?thesis
      using digit_in_digits [of n] by (subst toString.simps) simp
  next
    case False
    have "n mod 10 < 10" by simp
    then have "digit (n mod 10) \<in> set ''0123456789''" by (rule digit_in_digits)
    with 1 False show ?thesis
      by (subst toString.simps) simp
  qed
qed

lemma verifyPayment_invalid:
  "\<not> isAddress d w \<Longrightarrow> verifyPayment d w = ([], Inl (Error ''Invalid wallet address format''))"
  by (simp add: verifyPayment_def)

lemma paymentMiddleware_unmatched:
  "route_table d cfg (req_method req @ '' '' @ path req) = None \<Longrightarrow>
   paymentMiddleware d cfg req = \<lparr>outcome = Next req, verified = [], reads = []\<rparr>"
  by (simp add: paymentMiddleware_def Let_def)

lemma paymentMiddleware_matched:
  "route_table d cfg (req_method req @ '' '' @ path req) = Some rc \<Longrightarrow>
   paymentMiddleware d cfg req = x402PaymentMiddleware d (req\<lparr>routeMetadata := Some rc\<rparr>)"
  by (simp add: paymentMiddleware_def Let_def)

lemma first_rejection_in:
  assumes "i < length errs" and "errs ! i = Some e0"
  shows "Some (first_rejection order errs) \<in> set errs"
proof -
  let ?f = "\<lambda>i. if i < length errs then errs ! i else None"
  let ?l = "List.map_filter ?f (order @ [0..<length errs])"
  have "e0 \<in> set ?l"
    using assms by (auto simp: map_filter_def intro!: image_eqI [where x = i])
  then obtain e es where l: "?l = e # es" by (cases ?l) auto
  then have "e \<in> set ?l" by simp
  then have "\<exists>j < length errs. errs ! j = Some e"
    by (auto simp: map_filter_def split: if_splits)
  then have "Some e \<in> set errs"
    by (metis nth_mem)
  moreover have "first_rejection order errs = e"
    using l by (simp add: first_rejection_def)
  ultimately show ?thesis by simp
qed

lemma Promise_all_rejects:
  assumes "isl r0 \<or> isl r1 \<or> isl r2 \<or> isl r3"
  shows "\<exists>e. Promise_all order r0 r1 r2 r3 = Inl e \<and>
             Some e \<in> {err_of r0, err_of r1, err_of r2, err_of r3}"
proof -
  let ?errs = "[err_of r0, err_of r1, err_of r2, err_of r3]"
  from assms obtain i e0 where "i < length ?errs" and "?errs ! i = Some e0"
  proof (elim disjE)
    assume "isl r0" then have "?errs ! 0 = Some (projl r0)" by (auto simp: err_of_def isl_def)
    then show ?thesis using that [of 0] by simp
  next
    assume "isl r1" then have "?errs ! 1 = Some (projl r1)" by (auto simp: err_of_def isl_def)
    then show ?thesis using that [of 1] by simp
  next
    assume "isl r2" then have "?errs ! 2 = Some (projl r2)" by (auto simp: err_of_def isl_def)
    then show ?thesis using that [of 2] by simp
  next
    assume "isl r3" then have "?errs ! 3 = Some (projl r3)" by (auto simp: err_of_def isl_def)
    then show ?thesis using that [of 3] by simp
  qed
  then have "Some (first_rejection order ?errs) \<in> set ?errs"
    by (rule first_rejection_in)
  moreover have "Promise_all order r0 r1 r2 r3 = Inl (first_rejection order ?errs)"
    using assms by (auto simp: Promise_all_def Let_def split: sum.splits)
  ultimately show ?thesis by auto
qed

lemma Promise_all_fulfils:
  "Promise_all order (Inr a) (Inr b) (Inr c) (Inr d) = Inr (a, b, c, d)"
  by (simp add: Promise_all_def)

lemma load_routes_map_add:
  "load_routes d m cfg = m ++ map_of (rev (map (\<lambda>e. (route_key d (fst e), route_entry d e)) cfg))"
proof (induction cfg arbitrary: m)
  case Nil
  show ?case by (simp add: load_routes_def)
next
  case (Cons e es)
  have "load_routes d m (e # es) = load_routes d (set_route d m e) es"
    by (simp add: load_routes_def)
  also have "\<dots> = set_route d m e ++ map_of (rev (map (\<lambda>e. (route_key d (fst e), route_entry d e)) es))"
    by (rule Cons.IH)
  also have "\<dots> = m ++ map_of (rev (map (\<lambda>e. (route_key d (fst e), route_entry d e)) (e # es)))"
    by (simp add: set_route_def map_of_append)
  finally show ?case .
qed

lemma route_table_map_of:
  "route_table d cfg = map_of (rev (map (\<lambda>e. (route_key d (fst e), route_entry d e)) cfg))"
  by (simp add: route_table_def load_routes_map_add)

lemma route_table_None:
  "route_table d cfg k = None \<longleftrightarrow> (\<forall>e \<in> set cfg. route_key d (fst e) \<noteq> k)"
  by (force simp: route_table_map_of map_of_eq_None_iff)

lemma route_table_append:
  "route_table d (xs @ ys) = route_table d xs ++ route_table d ys"
  by (simp add: route_table_map_of map_of_append)

lemma route_table_last:
  assumes "\<forall>e \<in> set zs. route_key d (fst e) \<noteq> route_key d r"
  shows "route_table d (xs @ [(r, c)] @ zs) (route_key d r) = Some (route_entry d (r, c))"
proof -
  have "route_table d zs (route_key d r) = None"
    using assms by (simp add: route_table_None)
  moreover have "route_table d [(r, c)] (route_key d r) = Some (route_entry d (r, c))"
    by (simp add: route_table_map_of)
  moreover have "route_table d (xs @ [(r, c)] @ zs) =
      route_table d xs ++ route_table d [(r, c)] ++ route_table d zs"
    by (simp only: route_table_append map_add_assoc)
  ultimately show ?thesis
    by (simp add: map_add_def)
qed

lemma map_add_same: "m ++ m = m"
  by (rule ext) (simp add: map_add_def split: option.splits)

lemma load_routes_twice: "load_routes d (route_table d cfg) cfg = route_table d cfg"
  by (simp add: load_routes_map_add route_table_map_of map_add_same)

lemma route_table_twice: "route_table d (cfg @ cfg) = route_table d cfg"
  by (simp add: route_table_append map_add_same)

lemma split_space_single: "CHR '' '' \<notin> set s \<Longrightarrow> split_space s = [s]"
  by (induction s) auto

lemma split_space_append:
  "CHR '' '' \<notin> set m \<Longrightarrow> split_space (m @ CHR '' '' # rest) = m # split_space rest"
  by (induction m) auto

lemma route_key_plain:
  assumes "CHR '' '' \<notin> set m \<union> set p" and "trim d m = m" and "trim d p = p"
  shows "route_key d (m @ '' '' @ p) = toUpperCase d m @ '' '' @ p"
proof -
  have nm: "CHR '' '' \<notin> set m" and np: "CHR '' '' \<notin> set p"
    using assms(1) by auto
  have "split_space (m @ '' '' @ p) = [m, p]"
    using split_space_append [OF nm, of p] split_space_single [OF np] by simp
  then show ?thesis
    using assms(2,3) by (simp add: route_key_def route_parts_def render_def)
qed

lemma route_table_builtins:
  assumes "toUpperCase d = toUpperCase d'" and "trim d = trim d'"
  shows "route_table d cfg = route_table d' cfg"
proof -
  have p: "route_parts d = route_parts d'"
    by (rule ext) (simp add: route_parts_def assms)
  have "route_key d = route_key d'"
    by (rule ext) (simp add: route_key_def assms p)
  moreover have "route_entry d = route_entry d'"
    by (rule ext) (simp add: route_entry_def assms p)
  ultimately show ?thesis
    by (simp add: route_table_map_of)
qed

lemma split_space_nonempty: "split_space s \<noteq> []"
  by (induction s) (auto split: list.splits)

lemma server_route_data:
  "route_table (server_deps c) server_routes ''GET /api/data'' =
     Some \<lparr>rp_method = ''GET'', rp_path = Some ''/api/data'', rp_accepts = [''rootstock''],
           rp_description = ''Protected data API''\<rparr>"
proof -
  let ?d = "server_deps (answering (Inr False) (Inr 0) (Inr 0) (Inr 1000))"
  have "route_table (server_deps c) server_routes = route_table ?d server_routes"
    by (rule route_table_builtins) (simp_all add: server_deps_def)
  moreover have "route_table ?d server_routes ''GET /api/data'' =
     Some \<lparr>rp_method = ''GET'', rp_path = Some ''/api/data'', rp_accepts = [''rootstock''],
           rp_description = ''Protected data API''\<rparr>"
    by code_simp
  ultimately show ?thesis by simp
qed

lemma incoming_key: "req_method (incoming m p hs) @ '' '' @ path (incoming m p hs) = m @ '' '' @ p"
  by (simp add: incoming_def)

lemma incoming_header: "map_of (headers (incoming m p hs)) k = map_of hs k"
  by (simp add: incoming_def)

lemma payer1_shape: "hex_address_shape payer1"
  by code_simp

text \<open>
  The 402 response is a positive finding: the gate sends it only after all four reads
  succeeded and \<open>hasPaid\<close> was read as false.
\<close>

lemma gate_402_only_when_unpaid:
  assumes "x402PaymentMiddleware d req = eff" and "outcome eff = Response 402 body"
  shows "\<exists>w. map_of (headers req) ''x-wallet-address'' = Some w \<and> isAddress d w \<and>
             read_hasPaid (publicClient d) w = Inr False \<and>
             \<not> isl (read_getPaymentBalance (publicClient d) w) \<and>
             \<not> isl (read_getAvailableRequests (publicClient d) w) \<and>
             \<not> isl (read_pricePerRequest (publicClient d))"
proof (cases "map_of (headers req) ''x-wallet-address''")
  case None
  with assms show ?thesis by (auto simp: x402PaymentMiddleware_def)
next
  case (Some w)
  show ?thesis
  proof (cases "w = [] \<or> \<not> isAddress d w")
    case True
    then have "\<exists>n b. outcome (x402PaymentMiddleware d req) = Response n b \<and> n \<noteq> 402"
      using Some by (auto simp: x402PaymentMiddleware_def verifyPayment_invalid)
    with assms show ?thesis by auto
  next
    case False
    then have w: "w \<noteq> []" and a: "isAddress d w" by simp_all
    show ?thesis
    proof (cases "isl (read_hasPaid (publicClient d) w) \<or> isl (read_getPaymentBalance (publicClient d) w)
         \<or> isl (read_getAvailableRequests (publicClient d) w) \<or> isl (read_pricePerRequest (publicClient d))")
      case True
      from Promise_all_rejects [OF True, of "settle_order d"] obtain e where
        "Promise_all (settle_order d) (read_hasPaid (publicClient d) w)
          (read_getPaymentBalance (publicClient d) w)
          (read_getAvailableRequests (publicClient d) w)
          (read_pricePerRequest (publicClient d)) = Inl e"
        by blast
      then have "snd (verifyPayment d w) = Inl e"
        using a by (simp add: verifyPayment_def)
      with assms Some w show ?thesis
        by (cases "verifyPayment d w") (auto simp: x402PaymentMiddleware_def)
    next
      case False
      then obtain hp bal av price where r: "read_hasPaid (publicClient d) w = Inr hp"
        "read_getPaymentBalance (publicClient d) w = Inr bal"
        "read_getAvailableRequests (publicClient d) w = Inr av"
        "read_pricePerRequest (publicClient d) = Inr price"
        by (auto simp: isl_def) (metis sum.exhaust sum.disc(1) isl_def)
      have "snd (verifyPayment d w) = Inr \<lparr>vr_hasPaid = hp, vr_balance = bal,
          vr_availableRequests = Number_of av, vr_pricePerRequest = price\<rparr>"
        using a r by (simp add: verifyPayment_def Promise_all_fulfils)
      with assms Some w have "\<not> hp"
        by (cases "verifyPayment d w") (auto simp: x402PaymentMiddleware_def split: if_splits)
      with Some a r show ?thesis by simp
    qed
  qed
qed

text \<open>
  C2 (amended). On a restricted route, an identity header that is present and not empty
  but fails the address test makes \<open>verifyPayment\<close> throw
  \<open>Invalid wallet address format\<close> before any ledger read is issued, and the gate
  answers with status 500 and that message.
\<close>

theorem invalid_identity_500:
  assumes "route_table d cfg (req_method req @ '' '' @ path req) = Some rc"
    and "map_of (headers req) ''x-wallet-address'' = Some w" and "w \<noteq> []"
    and "\<not> isAddress d w"
  shows "verifyPayment d w = ([], Inl (Error ''Invalid wallet address format'')) \<and>
         paymentMiddleware d cfg req =
           \<lparr>outcome = Response 500 (JObj
              [(''error'', JStr ''Payment verification failed''),
               (''message'', JStr ''Invalid wallet address format'')]),
            verified = [w], reads = []\<rparr>"
  using assms(2-4)
  by (simp add: paymentMiddleware_matched [OF assms(1)] x402PaymentMiddleware_def
        verifyPayment_invalid)

theorem invalid_identity_500_witness:
  "route_table (server_deps (answering (Inr True) (Inr 2500) (Inr 2) (Inr 1000))) server_routes ''GET /api/data'' \<noteq> None \<and>
   \<not> isAddress (server_deps (answering (Inr True) (Inr 2500) (Inr 2) (Inr 1000))) ''abc'' \<and>
   paymentMiddleware (server_deps (answering (Inr True) (Inr 2500) (Inr 2) (Inr 1000))) server_routes
       (incoming ''GET'' ''/api/data'' [(''x-wallet-address'', ''abc'')]) =
     \<lparr>outcome = Response 500 (JObj
        [(''error'', JStr ''Payment verification failed''),
         (''message'', JStr ''Invalid wallet address format'')]),
      verified = [''abc''], reads = []\<rparr>"
proof -
  let ?d = "server_deps (answering (Inr True) (Inr 2500) (Inr 2) (Inr 1000))"
  let ?req = "incoming ''GET'' ''/api/data'' [(''x-wallet-address'', ''abc'')]"
  have r: "route_table ?d server_routes (req_method ?req @ '' '' @ path ?req) =
      Some \<lparr>rp_method = ''GET'', rp_path = Some ''/api/data'', rp_accepts = [''rootstock''],
           rp_description = ''Protected data API''\<rparr>"
    by (simp only: incoming_key) (simp add: server_route_data)
  have h: "map_of (headers ?req) ''x-wallet-address'' = Some ''abc''"
    by (simp add: incoming_header)
  have n: "''abc'' \<noteq> []" by simp
  have a: "\<not> isAddress ?d ''abc''"
    by (simp add: server_deps_def hex_address_shape_def)
  show ?thesis
    using invalid_identity_500 [OF r h n a] a by (simp add: server_route_data)
qed

text \<open>
  The claim as stated gives status 400 to a malformed identity. The gate answers 500:
  the only 400 is the one for a missing header, and an error thrown by \<open>verifyPayment\<close>
  reaches the gate's single \<open>catch\<close>.
\<close>

theorem invalid_identity_status_counterexample:
  "\<not> hex_address_shape ''not-an-address'' \<and>
   outcome (paymentMiddleware (server_deps (answering (Inr True) (Inr 2500) (Inr 2) (Inr 1000)))
              server_routes
              (incoming ''GET'' ''/api/data'' [(''x-wallet-address'', ''not-an-address'')])) =
     Response 500 (JObj
        [(''error'', JStr ''Payment verification failed''),
         (''message'', JStr ''Invalid wallet address format'')])"
  by code_simp

text \<open>
  C3. On a restricted route with a well-formed identity, if any of the four ledger reads
  fails, the gate answers with status 500, and the message of the response is the message
  of one of the failed reads (the fixed text \<open>Unable to verify payment status\<close> when that
  message is empty); the response is never the 402 one.
\<close>

theorem ledger_failure_500:
  assumes "route_table d cfg (req_method req @ '' '' @ path req) = Some rc"
    and "map_of (headers req) ''x-wallet-address'' = Some w" and "w \<noteq> []"
    and "isAddress d w"
    and "isl (read_hasPaid (publicClient d) w) \<or> isl (read_getPaymentBalance (publicClient d) w)
         \<or> isl (read_getAvailableRequests (publicClient d) w) \<or> isl (read_pricePerRequest (publicClient d))"
  shows "\<exists>e. Some e \<in> {err_of (read_hasPaid (publicClient d) w),
                        err_of (read_getPaymentBalance (publicClient d) w),
                        err_of (read_getAvailableRequests (publicClient d) w),
                        err_of (read_pricePerRequest (publicClient d))} \<and>
             outcome (paymentMiddleware d cfg req) =
               Response 500 (JObj
                 [(''error'', JStr ''Payment verification failed''),
                  (''message'', JStr (if message e = [] then ''Unable to verify payment status''
                                      else message e))]) \<and>
             (\<forall>body. outcome (paymentMiddleware d cfg req) \<noteq> Response 402 body)"
proof -
  from Promise_all_rejects [OF assms(5), of "settle_order d"]
  obtain e where p: "Promise_all (settle_order d) (read_hasPaid (publicClient d) w)
        (read_getPaymentBalance (publicClient d) w)
        (read_getAvailableRequests (publicClient d) w)
        (read_pricePerRequest (publicClient d)) = Inl e"
    and e: "Some e \<in> {err_of (read_hasPaid (publicClient d) w),
                        err_of (read_getPaymentBalance (publicClient d) w),
                        err_of (read_getAvailableRequests (publicClient d) w),
                        err_of (read_pricePerRequest (publicClient d))}"
    by blast
  have "snd (verifyPayment d w) = Inl e"
    using assms(4) p by (simp add: verifyPayment_def)
  then have "outcome (paymentMiddleware d cfg req) =
               Response 500 (JObj
                 [(''error'', JStr ''Payment verification failed''),
                  (''message'', JStr (if message e = [] then ''Unable to verify payment status''
                                      else message e))])"
    using assms(2,3)
    by (cases "verifyPayment d w")
       (simp add: paymentMiddleware_matched [OF assms(1)] x402PaymentMiddleware_def)
  with e show ?thesis by auto
qed

theorem ledger_failure_500_witness:
  "isAddress (server_deps (answering (Inr True) (Inr 2500) (Inl (Error ''request timed out'')) (Inr 1000))) payer1 \<and>
   outcome (paymentMiddleware
       (server_deps (answering (Inr True) (Inr 2500) (Inl (Error ''request timed out'')) (Inr 1000)))
       server_routes (incoming ''GET'' ''/api/data'' [(''x-wallet-address'', payer1)])) =
     Response 500 (JObj
        [(''error'', JStr ''Payment verification failed''),
         (''message'', JStr ''request timed out'')])"
proof -
  let ?c = "answering (Inr True) (Inr 2500) (Inl (Error ''request timed out'')) (Inr 1000)"
  let ?d = "server_deps ?c"
  let ?req = "incoming ''GET'' ''/api/data'' [(''x-wallet-address'', payer1)]"
  have r: "route_table ?d server_routes (req_method ?req @ '' '' @ path ?req) =
      Some \<lparr>rp_method = ''GET'', rp_path = Some ''/api/data'', rp_accepts = [''rootstock''],
           rp_description = ''Protected data API''\<rparr>"
    by (simp only: incoming_key) (simp add: server_route_data)
  have h: "map_of (headers ?req) ''x-wallet-address'' = Some payer1"
    by (simp add: incoming_header)
  have n: "payer1 \<noteq> []" by (simp add: payer1_def)
  have a: "isAddress ?d payer1"
    by (simp add: server_deps_def payer1_shape)
  have c: "publicClient ?d = ?c" by (simp add: server_deps_def)
  have f: "isl (read_hasPaid (publicClient ?d) payer1) \<or> isl (read_getPaymentBalance (publicClient ?d) payer1)
         \<or> isl (read_getAvailableRequests (publicClient ?d) payer1) \<or> isl (read_pricePerRequest (publicClient ?d))"
    by (simp add: server_deps_def answering_def)
  from ledger_failure_500 [OF r h n a f]
  obtain e where e: "Some e \<in> {err_of (read_hasPaid (publicClient ?d) payer1),
                        err_of (read_getPaymentBalance (publicClient ?d) payer1),
                        err_of (read_getAvailableRequests (publicClient ?d) payer1),
                        err_of (read_pricePerRequest (publicClient ?d))}"
    and o: "outcome (paymentMiddleware ?d server_routes ?req) =
               Response 500 (JObj
                 [(''error'', JStr ''Payment verification failed''),
                  (''message'', JStr (if message e = [] then ''Unable to verify payment status''
                                      else message e))])"
    by blast
  from e have "e = Error ''request timed out''"
    by (simp add: server_deps_def answering_def err_of_def)
  with o a show ?thesis by simp
qed

text \<open>
  C4. On a restricted route, a request whose identity header is absent or empty is
  answered with status 400 at once: \<open>verifyPayment\<close> is not called and no ledger read
  is issued.
\<close>

theorem missing_identity_400:
  assumes "route_table d cfg (req_method req @ '' '' @ path req) = Some rc"
    and "map_of (headers req) ''x-wallet-address'' = None
         \<or> map_of (headers req) ''x-wallet-address'' = Some []"
  shows "paymentMiddleware d cfg req =
           \<lparr>outcome = Response 400 (JObj
              [(''error'', JStr ''Missing wallet address''),
               (''message'', JStr ''Please include your wallet address in the x-wallet-address header'')]),
            verified = [], reads = []\<rparr>"
  using assms(2)
  by (auto simp: paymentMiddleware_matched [OF assms(1)] x402PaymentMiddleware_def)

theorem missing_identity_400_witness:
  "route_table (server_deps (answering (Inr False) (Inr 0) (Inr 0) (Inr 1000))) server_routes ''GET /api/data'' \<noteq> None \<and>
   paymentMiddleware (server_deps (answering (Inr False) (Inr 0) (Inr 0) (Inr 1000))) server_routes
       (incoming ''GET'' ''/api/data'' []) =
     \<lparr>outcome = Response 400 (JObj
        [(''error'', JStr ''Missing wallet address''),
         (''message'', JStr ''Please include your wallet address in the x-wallet-address header'')]),
      verified = [], reads = []\<rparr> \<and>
   paymentMiddleware (server_deps (answering (Inr False) (Inr 0) (Inr 0) (Inr 1000))) server_routes
       (incoming ''GET'' ''/api/data'' [(''x-wallet-address'', [])]) =
     \<lparr>outcome = Response 400 (JObj
        [(''error'', JStr ''Missing wallet address''),
         (''message'', JStr ''Please include your wallet address in the x-wallet-address header'')]),
      verified = [], reads = []\<rparr>"
proof -
  let ?d = "server_deps (answering (Inr False) (Inr 0) (Inr 0) (Inr 1000))"
  let ?rc = "\<lparr>rp_method = ''GET'', rp_path = Some ''/api/data'', rp_accepts = [''rootstock''],
              rp_description = ''Protected data API''\<rparr>"
  have k: "route_table ?d server_routes ''GET /api/data'' = Some ?rc"
    by (rule server_route_data)
  have r1: "route_table ?d server_routes
      (req_method (incoming ''GET'' ''/api/data'' []) @ '' '' @ path (incoming ''GET'' ''/api/data'' [])) = Some ?rc"
    using k by (simp add: incoming_def)
  have r2: "route_table ?d server_routes
      (req_method (incoming ''GET'' ''/api/data'' [(''x-wallet-address'', [])]) @ '' '' @
       path (incoming ''GET'' ''/api/data'' [(''x-wallet-address'', [])])) = Some ?rc"
    using k by (simp add: incoming_def)
  have h1: "map_of (headers (incoming ''GET'' ''/api/data'' [])) ''x-wallet-address'' = None
      \<or> map_of (headers (incoming ''GET'' ''/api/data'' [])) ''x-wallet-address'' = Some []"
    by (simp add: incoming_def)
  have h2: "map_of (headers (incoming ''GET'' ''/api/data'' [(''x-wallet-address'', [])])) ''x-wallet-address'' = None
      \<or> map_of (headers (incoming ''GET'' ''/api/data'' [(''x-wallet-address'', [])])) ''x-wallet-address'' = Some []"
    by (simp add: incoming_def)
  show ?thesis
    using missing_identity_400 [OF r1 h1] missing_identity_400 [OF r2 h2] k by simp
qed

text \<open>
  C5. Node's HTTP parser hands a request to the server with its method in upper case,
  so the method of an incoming request is its own upper-case form. For every such
  request the gate's decision is the lookup of the key made of the method normalised to
  upper case, a space and the path as it is, by exact match in the table, whose keys are
  the configured method in upper case, a space and the configured path as written. A
  request whose method differs only in letter case from that of a configured entry with
  the same path is matched and goes to the payment check with a policy attached; a
  request without a matching key passes to the downstream handler untouched.
\<close>

theorem route_gate_normalized_lookup:
  assumes "toUpperCase d (req_method req) = req_method req"
  shows "paymentMiddleware d cfg req =
           (case route_table d cfg (toUpperCase d (req_method req) @ '' '' @ path req) of
              None \<Rightarrow> \<lparr>outcome = Next req, verified = [], reads = []\<rparr>
            | Some rc \<Rightarrow> x402PaymentMiddleware d (req\<lparr>routeMetadata := Some rc\<rparr>)) \<and>
         (route_table d cfg (toUpperCase d (req_method req) @ '' '' @ path req) = None \<longleftrightarrow>
            (\<forall>e \<in> set cfg.
               route_key d (fst e) \<noteq> toUpperCase d (req_method req) @ '' '' @ path req)) \<and>
         (\<forall>m p. CHR '' '' \<notin> set m \<union> set p \<and> trim d m = m \<and> trim d p = p \<longrightarrow>
            route_key d (m @ '' '' @ p) = toUpperCase d m @ '' '' @ p) \<and>
         (\<forall>m c. (m @ '' '' @ path req, c) \<in> set cfg \<and>
              CHR '' '' \<notin> set m \<union> set (path req) \<and> trim d m = m \<and>
              trim d (path req) = path req \<and>
              toUpperCase d m = toUpperCase d (req_method req) \<longrightarrow>
            (\<exists>rc. paymentMiddleware d cfg req =
                    x402PaymentMiddleware d (req\<lparr>routeMetadata := Some rc\<rparr>))) \<and>
         ((\<forall>e \<in> set cfg.
             route_key d (fst e) \<noteq> toUpperCase d (req_method req) @ '' '' @ path req) \<longrightarrow>
            paymentMiddleware d cfg req = \<lparr>outcome = Next req, verified = [], reads = []\<rparr>)"
proof -
  let ?k = "toUpperCase d (req_method req) @ '' '' @ path req"
  have k: "req_method req @ '' '' @ path req = ?k"
    using assms by simp
  have 1: "paymentMiddleware d cfg req =
           (case route_table d cfg ?k of
              None \<Rightarrow> \<lparr>outcome = Next req, verified = [], reads = []\<rparr>
            | Some rc \<Rightarrow> x402PaymentMiddleware d (req\<lparr>routeMetadata := Some rc\<rparr>))"
    unfolding paymentMiddleware_def Let_def k by (rule refl)
  have 2: "route_table d cfg ?k = None \<longleftrightarrow> (\<forall>e \<in> set cfg. route_key d (fst e) \<noteq> ?k)"
    by (rule route_table_None)
  have 3: "\<forall>m p. CHR '' '' \<notin> set m \<union> set p \<and> trim d m = m \<and> trim d p = p \<longrightarrow>
            route_key d (m @ '' '' @ p) = toUpperCase d m @ '' '' @ p"
    using route_key_plain by blast
  have 4: "\<forall>m c. (m @ '' '' @ path req, c) \<in> set cfg \<and>
              CHR '' '' \<notin> set m \<union> set (path req) \<and> trim d m = m \<and>
              trim d (path req) = path req \<and>
              toUpperCase d m = toUpperCase d (req_method req) \<longrightarrow>
            (\<exists>rc. paymentMiddleware d cfg req =
                    x402PaymentMiddleware d (req\<lparr>routeMetadata := Some rc\<rparr>))"
  proof (intro allI impI)
    fix m c
    assume a: "(m @ '' '' @ path req, c) \<in> set cfg \<and>
              CHR '' '' \<notin> set m \<union> set (path req) \<and> trim d m = m \<and>
              trim d (path req) = path req \<and>
              toUpperCase d m = toUpperCase d (req_method req)"
    then have "route_key d (m @ '' '' @ path req) = ?k"
      using route_key_plain [of m "path req" d] by simp
    with a have "\<not> (\<forall>e \<in> set cfg. route_key d (fst e) \<noteq> ?k)"
      by force
    with 2 obtain rc where "route_table d cfg ?k = Some rc" by auto
    with 1 have "paymentMiddleware d cfg req =
                    x402PaymentMiddleware d (req\<lparr>routeMetadata := Some rc\<rparr>)"
      by simp
    then show "\<exists>rc. paymentMiddleware d cfg req =
                    x402PaymentMiddleware d (req\<lparr>routeMetadata := Some rc\<rparr>)"
      by (rule exI)
  qed
  have 5: "(\<forall>e \<in> set cfg. route_key d (fst e) \<noteq> ?k) \<longrightarrow>
            paymentMiddleware d cfg req = \<lparr>outcome = Next req, verified = [], reads = []\<rparr>"
  proof
    assume "\<forall>e \<in> set cfg. route_key d (fst e) \<noteq> ?k"
    with 2 have "route_table d cfg ?k = None" by simp
    with 1 show "paymentMiddleware d cfg req = \<lparr>outcome = Next req, verified = [], reads = []\<rparr>"
      by simp
  qed
  from 1 2 3 4 5 show ?thesis by (intro conjI)
qed

theorem route_gate_normalized_lookup_witness:
  "ascii_toUpperCase ''GET'' = ''GET'' \<and> ascii_toUpperCase ''get'' = ''GET'' \<and>
   outcome (paymentMiddleware (server_deps (answering (Inr False) (Inr 0) (Inr 0) (Inr 1000)))
       [(''get /api/data'', \<lparr>accepts = None, description = None\<rparr>)]
       (incoming ''GET'' ''/api/data'' [])) =
     Response 400 (JObj
        [(''error'', JStr ''Missing wallet address''),
         (''message'', JStr ''Please include your wallet address in the x-wallet-address header'')]) \<and>
   paymentMiddleware (server_deps (answering (Inr False) (Inr 0) (Inr 0) (Inr 1000)))
       [(''get /api/data'', \<lparr>accepts = None, description = None\<rparr>)]
       (incoming ''GET'' ''/API/data'' []) =
     \<lparr>outcome = Next (incoming ''GET'' ''/API/data'' []), verified = [], reads = []\<rparr>"
proof -
  let ?d = "server_deps (answering (Inr False) (Inr 0) (Inr 0) (Inr 1000))"
  let ?cfg = "[(''get /api/data'', \<lparr>accepts = None, description = None\<rparr>)]"
  let ?req = "incoming ''GET'' ''/api/data'' []"
  let ?other = "incoming ''GET'' ''/API/data'' []"
  have u: "ascii_toUpperCase ''GET'' = ''GET''" and l: "ascii_toUpperCase ''get'' = ''GET''"
    by code_simp+
  have up: "toUpperCase ?d (req_method ?req) = req_method ?req"
    and up': "toUpperCase ?d (req_method ?other) = req_method ?other"
    using u by (simp_all add: server_deps_def incoming_def)
  have tr: "trim ?d ''get'' = ''get''" and tr': "trim ?d (path ?req) = path ?req"
    by code_simp+
  have "(''get'' @ '' '' @ path ?req, \<lparr>accepts = None, description = None\<rparr>) \<in> set ?cfg \<and>
        CHR '' '' \<notin> set ''get'' \<union> set (path ?req) \<and> trim ?d ''get'' = ''get'' \<and>
        trim ?d (path ?req) = path ?req \<and>
        toUpperCase ?d ''get'' = toUpperCase ?d (req_method ?req)"
    using tr tr' u l by (simp add: incoming_def server_deps_def)
  with route_gate_normalized_lookup [OF up, of ?cfg]
  obtain rc where "paymentMiddleware ?d ?cfg ?req =
      x402PaymentMiddleware ?d (?req\<lparr>routeMetadata := Some rc\<rparr>)"
    by blast
  then have a: "outcome (paymentMiddleware ?d ?cfg ?req) = Response 400 (JObj
        [(''error'', JStr ''Missing wallet address''),
         (''message'', JStr ''Please include your wallet address in the x-wallet-address header'')])"
    by (simp add: x402PaymentMiddleware_def incoming_def)
  have n: "\<forall>e \<in> set ?cfg.
      route_key ?d (fst e) \<noteq> toUpperCase ?d (req_method ?other) @ '' '' @ path ?other"
    by code_simp
  note g = route_gate_normalized_lookup [OF up', of ?cfg]
  from g have g5: "(\<forall>e \<in> set ?cfg.
      route_key ?d (fst e) \<noteq> toUpperCase ?d (req_method ?other) @ '' '' @ path ?other) \<longrightarrow>
      paymentMiddleware ?d ?cfg ?other = \<lparr>outcome = Next ?other, verified = [], reads = []\<rparr>"
    by (elim conjE)
  from g5 n have b: "paymentMiddleware ?d ?cfg ?other =
      \<lparr>outcome = Next ?other, verified = [], reads = []\<rparr>"
    by (rule mp)
  from u l a b show ?thesis by (intro conjI)
qed

text \<open>
  C6. On a restricted route, when the verification succeeds with \<open>hasPaid = false\<close>, the
  gate answers with status 402; the body's \<open>currentStatus\<close> holds the caller's identity,
  the balance read and its formatted form, \<open>hasPaid: false\<close> and the literal
  \<open>availableRequests: 0\<close>, whatever the available-requests read returned; the body
  carries the rendered payment instructions, whose \<open>amount.value\<close> is the decimal string
  of the price read.
\<close>

theorem unpaid_402_body:
  assumes "route_table d cfg (req_method req @ '' '' @ path req) = Some rc"
    and "map_of (headers req) ''x-wallet-address'' = Some w" and "w \<noteq> []"
    and "isAddress d w"
    and "read_hasPaid (publicClient d) w = Inr False"
    and "read_getPaymentBalance (publicClient d) w = Inr bal"
    and "read_getAvailableRequests (publicClient d) w = Inr av"
    and "read_pricePerRequest (publicClient d) = Inr price"
  shows "\<exists>body. outcome (paymentMiddleware d cfg req) = Response 402 body \<and>
           lookup body ''status'' = Some (JNum 402) \<and>
           lookup body ''message'' = Some (JStr ''Payment Required'') \<and>
           lookup body ''currentStatus'' = Some (JObj
              [(''walletAddress'', JStr w),
               (''balance'', JStr (toString bal)),
               (''balanceFormatted'', JStr (formatRBTC d bal)),
               (''hasPaid'', JBool False),
               (''availableRequests'', JNum 0)]) \<and>
           lookup body ''payment'' = map_of (generatePaymentInstructions d price) ''payment'' \<and>
           lookup body ''metadata'' = map_of (generatePaymentInstructions d price) ''metadata'' \<and>
           lookup_path body [''payment'', ''amount'', ''value''] = Some (JStr (toString price))"
proof -
  have v: "verifyPayment d w =
      ([(''hasPaid'', [w]), (''getPaymentBalance'', [w]), (''getAvailableRequests'', [w]),
        (''pricePerRequest'', [])],
       Inr \<lparr>vr_hasPaid = False, vr_balance = bal, vr_availableRequests = Number_of av,
            vr_pricePerRequest = price\<rparr>)"
    using assms(4-8) by (simp add: verifyPayment_def Promise_all_fulfils)
  show ?thesis
    using assms(2,3)
    by (simp add: paymentMiddleware_matched [OF assms(1)] x402PaymentMiddleware_def v
          generatePaymentInstructions_def)
qed

theorem unpaid_402_body_witness:
  "lookup_path
     (case outcome (paymentMiddleware
         (server_deps (answering (Inr False) (Inr 400) (Inr 7) (Inr 1000)))
         server_routes (incoming ''GET'' ''/api/data'' [(''x-wallet-address'', payer1)])) of
        Response n body \<Rightarrow> body | Next r \<Rightarrow> JArr [])
     [''currentStatus'', ''availableRequests''] = Some (JNum 0) \<and>
   (\<exists>body. outcome (paymentMiddleware
         (server_deps (answering (Inr False) (Inr 400) (Inr 7) (Inr 1000)))
         server_routes (incoming ''GET'' ''/api/data'' [(''x-wallet-address'', payer1)])) = Response 402 body \<and>
      lookup body ''currentStatus'' = Some (JObj
              [(''walletAddress'', JStr payer1),
               (''balance'', JStr ''400''),
               (''balanceFormatted'', JStr ''0.0000000000000004''),
               (''hasPaid'', JBool False),
               (''availableRequests'', JNum 0)]) \<and>
      lookup_path body [''payment'', ''amount'', ''value''] = Some (JStr ''1000''))"
proof -
  let ?c = "answering (Inr False) (Inr 400) (Inr 7) (Inr 1000)"
  let ?d = "server_deps ?c"
  let ?req = "incoming ''GET'' ''/api/data'' [(''x-wallet-address'', payer1)]"
  have r: "route_table ?d server_routes (req_method ?req @ '' '' @ path ?req) =
      Some \<lparr>rp_method = ''GET'', rp_path = Some ''/api/data'', rp_accepts = [''rootstock''],
           rp_description = ''Protected data API''\<rparr>"
    by (simp only: incoming_key) (simp add: server_route_data)
  have h: "map_of (headers ?req) ''x-wallet-address'' = Some payer1"
    by (simp add: incoming_header)
  have n: "payer1 \<noteq> []" by (simp add: payer1_def)
  have a: "isAddress ?d payer1"
    by (simp add: server_deps_def payer1_shape)
  have c: "publicClient ?d = ?c" by (simp add: server_deps_def)
  have r0: "read_hasPaid (publicClient ?d) payer1 = Inr False"
    and r1: "read_getPaymentBalance (publicClient ?d) payer1 = Inr 400"
    and r2: "read_getAvailableRequests (publicClient ?d) payer1 = Inr 7"
    and r3: "read_pricePerRequest (publicClient ?d) = Inr 1000"
    by (simp_all add: server_deps_def answering_def)
  have t1: "toString 400 = ''400''" and t2: "toString 1000 = ''1000''"
    and t3: "formatRBTC ?d 400 = ''0.0000000000000004''"
    by code_simp+
  from unpaid_402_body [OF r h n a r0 r1 r2 r3]
  obtain body where o: "outcome (paymentMiddleware ?d server_routes ?req) = Response 402 body"
    and cs: "lookup body ''currentStatus'' = Some (JObj
              [(''walletAddress'', JStr payer1),
               (''balance'', JStr (toString 400)),
               (''balanceFormatted'', JStr (formatRBTC ?d 400)),
               (''hasPaid'', JBool False),
               (''availableRequests'', JNum 0)])"
    and v: "lookup_path body [''payment'', ''amount'', ''value''] = Some (JStr (toString 1000))"
    by blast
  have "lookup_path body [''currentStatus'', ''availableRequests''] = Some (JNum 0)"
    using cs by simp
  with o cs v show ?thesis by (simp add: t1 t2 t3)
qed

text \<open>
  C9. When two entries of the configuration normalise to the same key and no entry after
  the second has that key, the table holds the second entry's policy under it. Loading a
  configuration again into its own table leaves the table as it is, and a gate built from
  the configuration given twice over decides every request as the gate built from it once.
\<close>

theorem last_write_wins:
  "(cfg = xs @ [(r1, c1)] @ ys @ [(r2, c2)] @ zs \<and> route_key d r1 = route_key d r2 \<and>
      (\<forall>e \<in> set zs. route_key d (fst e) \<noteq> route_key d r2) \<longrightarrow>
        route_table d cfg (route_key d r1) = Some (route_entry d (r2, c2)) \<and>
        (req_method req @ '' '' @ path req = route_key d r1 \<longrightarrow>
           paymentMiddleware d cfg req =
             x402PaymentMiddleware d (req\<lparr>routeMetadata := Some (route_entry d (r2, c2))\<rparr>))) \<and>
   load_routes d (route_table d cfg) cfg = route_table d cfg \<and>
   paymentMiddleware d (cfg @ cfg) req = paymentMiddleware d cfg req"
proof -
  have 1: "cfg = xs @ [(r1, c1)] @ ys @ [(r2, c2)] @ zs \<and> route_key d r1 = route_key d r2 \<and>
      (\<forall>e \<in> set zs. route_key d (fst e) \<noteq> route_key d r2) \<longrightarrow>
        route_table d cfg (route_key d r1) = Some (route_entry d (r2, c2)) \<and>
        (req_method req @ '' '' @ path req = route_key d r1 \<longrightarrow>
           paymentMiddleware d cfg req =
             x402PaymentMiddleware d (req\<lparr>routeMetadata := Some (route_entry d (r2, c2))\<rparr>))"
  proof
    assume a: "cfg = xs @ [(r1, c1)] @ ys @ [(r2, c2)] @ zs \<and> route_key d r1 = route_key d r2 \<and>
        (\<forall>e \<in> set zs. route_key d (fst e) \<noteq> route_key d r2)"
    then have "cfg = (xs @ [(r1, c1)] @ ys) @ [(r2, c2)] @ zs" by simp
    then have k: "route_table d cfg (route_key d r1) = Some (route_entry d (r2, c2))"
      using a route_table_last [where zs = zs and r = r2 and xs = "xs @ [(r1, c1)] @ ys"
          and c = c2 and d = d] by simp
    then show "route_table d cfg (route_key d r1) = Some (route_entry d (r2, c2)) \<and>
        (req_method req @ '' '' @ path req = route_key d r1 \<longrightarrow>
           paymentMiddleware d cfg req =
             x402PaymentMiddleware d (req\<lparr>routeMetadata := Some (route_entry d (r2, c2))\<rparr>))"
      using paymentMiddleware_matched [where cfg = cfg and req = req
          and rc = "route_entry d (r2, c2)" and d = d] by simp
  qed
  have 2: "load_routes d (route_table d cfg) cfg = route_table d cfg" by (rule load_routes_twice)
  have 3: "paymentMiddleware d (cfg @ cfg) req = paymentMiddleware d cfg req"
    by (simp add: paymentMiddleware_def route_table_twice)
  from 1 2 3 show ?thesis by (intro conjI)
qed

theorem last_write_wins_witness:
  "route_key (server_deps (answering (Inr False) (Inr 0) (Inr 0) (Inr 1000))) ''get /api/data'' =
     route_key (server_deps (answering (Inr False) (Inr 0) (Inr 0) (Inr 1000))) ''GET /api/data'' \<and>
   route_table (server_deps (answering (Inr False) (Inr 0) (Inr 0) (Inr 1000)))
     [(''get /api/data'', \<lparr>accepts = None, description = Some ''first''\<rparr>),
      (''GET /api/weather'', \<lparr>accepts = None, description = None\<rparr>),
      (''GET /api/data'', \<lparr>accepts = Some [''rootstock''], description = Some ''second''\<rparr>)]
     ''GET /api/data'' =
   Some \<lparr>rp_method = ''GET'', rp_path = Some ''/api/data'', rp_accepts = [''rootstock''],
         rp_description = ''second''\<rparr>"
proof -
  let ?d = "server_deps (answering (Inr False) (Inr 0) (Inr 0) (Inr 1000))"
  let ?c1 = "\<lparr>accepts = None, description = Some ''first''\<rparr>"
  let ?c2 = "\<lparr>accepts = Some [''rootstock''], description = Some ''second''\<rparr>"
  let ?mid = "[(''GET /api/weather'', \<lparr>accepts = None, description = None\<rparr>)]"
  let ?cfg = "[(''get /api/data'', ?c1)] @ ?mid @ [(''GET /api/data'', ?c2)]"
  have k1: "route_key ?d ''get /api/data'' = ''GET /api/data''"
    and k2: "route_key ?d ''GET /api/data'' = ''GET /api/data''"
    by code_simp+
  have e: "route_entry ?d (''GET /api/data'', ?c2) =
      \<lparr>rp_method = ''GET'', rp_path = Some ''/api/data'', rp_accepts = [''rootstock''],
       rp_description = ''second''\<rparr>"
    by code_simp
  have "?cfg = [] @ [(''get /api/data'', ?c1)] @ ?mid @ [(''GET /api/data'', ?c2)] @ [] \<and>
        route_key ?d ''get /api/data'' = route_key ?d ''GET /api/data'' \<and>
        (\<forall>e \<in> set []. route_key ?d (fst e) \<noteq> route_key ?d ''GET /api/data'')"
    by (simp add: k1 k2)
  with last_write_wins [where cfg = ?cfg and xs = "[]" and ?r1.0 = "''get /api/data''"
      and ?c1.0 = ?c1 and ys = ?mid and ?r2.0 = "''GET /api/data''" and ?c2.0 = ?c2
      and zs = "[]" and d = ?d]
  have "route_table ?d ?cfg (route_key ?d ''get /api/data'') =
          Some (route_entry ?d (''GET /api/data'', ?c2))"
    by blast
  then show ?thesis by (simp add: k1 k2 e)
qed

end
